theory Spec2Isabelle
  imports Complex_Main
begin

section \<open>Data model (app/models/domain.py)\<close>

text \<open>
  The enums of the domain model become datatypes. Several enums share the member
  names READY, FAILED and NEEDS_REVIEW, so every constructor carries a prefix naming
  its enum. Rows are records; a table is the list of its rows in insertion order.
  Primary keys are the uuid4 strings the ORM generates; the model receives each fresh
  key as an argument of the operation that inserts the row.
\<close>

datatype DeploymentStatus = DP_CREATED | DP_ACTIVE | DP_ARCHIVED

datatype RunState =
  QUEUED | PREFLIGHT | STAGING | TRAINING | EVALUATING | PACKAGING
  | RS_READY | RS_FAILED | CANCELLED

datatype DatasetStatus = DS_BUILDING | DS_READY | DS_NEEDS_REVIEW | DS_FAILED

text \<open>
  The string a caught exception renders to (\<open>str(exc)\<close>). Every message of the
  orchestrator is a fixed text except the one of a refused transition, an f-string over
  the two states, which is kept symbolic.
\<close>

datatype message = Msg string | Invalid_transition RunState RunState

text \<open>The training configuration object; \<open>None\<close> is an absent key, read through
  \<open>config.get(key, default)\<close>. Floats are modelled as real numbers.\<close>

record TrainConfig =
  sequence_length :: "real option"
  lora_rank :: "real option"
  per_device_batch_size :: "real option"
  gradient_accumulation_steps :: "real option"
  precision :: "string option"
  use_4bit :: "bool option"

text \<open>The dataset row schema, one line of a train/val/test/gold/review file.\<close>

record source_ref =
  doc_id :: string
  section_title :: string
  chunk_index :: int

record item =
  instruction :: string
  item_input :: string
  item_output :: string
  source :: source_ref
  task_type :: string
  expected_refusal :: bool
  example_score :: int

record dataset_stats =
  total_examples :: nat
  train_examples :: nat
  val_examples :: nat
  test_examples :: nat
  gold_examples :: nat
  review_examples :: nat
  task_mix :: "(string \<times> nat) list"
  mean_example_score :: int

text \<open>The statistics object of a dataset: empty while it is built, an error note when
  the build failed, the counts when it succeeded.\<close>

datatype stats = No_stats | Stats_error string | Stats dataset_stats

text \<open>A dataset version. Each of the five jsonl files is modelled by its rows, kept with
  the database row that holds its path.\<close>

record DatasetVersion =
  ds_id :: string
  ds_tenant_id :: string
  ds_project_id :: string
  ds_name :: string
  ds_status :: DatasetStatus
  source_document_ids :: "string list"
  train_file :: "item list"
  val_file :: "item list"
  test_file :: "item list"
  gold_file :: "item list"
  review_file :: "item list"
  stats_json :: stats
  ds_quality_score :: int

record RunEvent =
  ev_run_id :: string
  from_state :: "RunState option"
  to_state :: RunState
  ev_message :: "string option"
  details_error :: "message option"

record TrainingRun =
  run_id :: string
  run_tenant_id :: string
  run_project_id :: string
  dataset_version_id :: string
  requested_by_user_id :: string
  base_model_id :: string
  config_json :: TrainConfig
  state :: RunState
  state_message :: "string option"
  progress :: real
  checkpoint_path :: "string option"
  adapter_path :: "string option"
  package_path :: "string option"
  eval_report_id :: "string option"
  error_message :: "message option"
  run_created_at :: nat


section \<open>Deployment service (app/services/deployment.py)\<close>


text \<open>\<open>db.get(TrainingRun, id)\<close>: the row with that primary key, or None.\<close>

definition get_run :: "TrainingRun list \<Rightarrow> string \<Rightarrow> TrainingRun option" where
  "get_run runs rid = find (\<lambda>r. run_id r = rid) runs"






section \<open>Training orchestrator (app/services/training.py)\<close>

text \<open>The table \<open>ALLOWED_TRANSITIONS\<close>.\<close>

fun ALLOWED_TRANSITIONS :: "RunState \<Rightarrow> RunState set" where
  "ALLOWED_TRANSITIONS QUEUED = {PREFLIGHT, CANCELLED}"
| "ALLOWED_TRANSITIONS PREFLIGHT = {STAGING, RS_FAILED, CANCELLED}"
| "ALLOWED_TRANSITIONS STAGING = {TRAINING, RS_FAILED, CANCELLED}"
| "ALLOWED_TRANSITIONS TRAINING = {EVALUATING, RS_FAILED, CANCELLED}"
| "ALLOWED_TRANSITIONS EVALUATING = {PACKAGING, RS_FAILED, CANCELLED}"
| "ALLOWED_TRANSITIONS PACKAGING = {RS_READY, RS_FAILED, CANCELLED}"
| "ALLOWED_TRANSITIONS RS_READY = {}"
| "ALLOWED_TRANSITIONS RS_FAILED = {QUEUED}"
| "ALLOWED_TRANSITIONS CANCELLED = {QUEUED}"




text \<open>
  The orchestrator works on one run object and appends to the run-event table. A step of
  the drive sequence either raises (\<open>Inl\<close> of the message, the object left as it was
  before the step) or returns the updated state.
\<close>

record orch =
  o_run :: TrainingRun
  o_events :: "RunEvent list"

type_synonym step = "orch \<Rightarrow> message + orch"

definition record_run_event ::
  "RunState option \<Rightarrow> RunState \<Rightarrow> string option \<Rightarrow> message option \<Rightarrow> orch \<Rightarrow> orch" where
  "record_run_event from_st to_st msg details s =
     s\<lparr>o_events := o_events s @
          [\<lparr>ev_run_id = run_id (o_run s), from_state = from_st, to_state = to_st,
            ev_message = msg, details_error = details\<rparr>]\<rparr>"

text \<open>\<open>_transition\<close>: refused with a ValueError unless the table allows it.\<close>

definition transition :: "RunState \<Rightarrow> string \<Rightarrow> step" where
  "transition target_state msg s =
     (if target_state \<notin> ALLOWED_TRANSITIONS (state (o_run s))
      then Inl (Invalid_transition (state (o_run s)) target_state)
      else
        let from_st = state (o_run s);
            s1 = s\<lparr>o_run := (o_run s)\<lparr>state := target_state, state_message := Some msg\<rparr>\<rparr>
        in Inr (record_run_event (Some from_st) target_state (Some msg) None s1))"











text \<open>\<open>_fail\<close>: the transition through the table when it allows FAILED, the forced write
  of the state otherwise; then the error message.\<close>

definition fail :: "message \<Rightarrow> step" where
  "fail error s =
     (let moved =
        (if state (o_run s) \<noteq> RS_FAILED
         then (if RS_FAILED \<notin> ALLOWED_TRANSITIONS (state (o_run s))
               then
                 let previous_state = state (o_run s);
                     s1 = s\<lparr>o_run := (o_run s)\<lparr>state := RS_FAILED\<rparr>\<rparr>
                 in Inr (record_run_event (Some previous_state) RS_FAILED (Some ''Run failed'')
                           (Some error) s1)
               else transition RS_FAILED ''Run failed'' s)
         else Inr s)
      in case moved of
           Inl e \<Rightarrow> Inl e
         | Inr s2 \<Rightarrow>
             Inr (s2\<lparr>o_run := (o_run s2)\<lparr>error_message := Some error,
                                         state_message := Some ''Run failed''\<rparr>\<rparr>))"



subsection \<open>Claiming the next queued run\<close>

text \<open>
  The first statement of \<open>_claim_next_queued_run\<close>: the id of the QUEUED run with the
  least creation time (the first such row of the table among equals). An id that Python
  takes for false, the empty string, counts as no candidate, as \<open>if not candidate\<close> does.
\<close>

definition oldest :: "TrainingRun \<Rightarrow> TrainingRun list \<Rightarrow> TrainingRun" where
  "oldest q qs = foldl (\<lambda>best r. if run_created_at r < run_created_at best then r else best) q qs"

definition select_candidate :: "TrainingRun list \<Rightarrow> string option" where
  "select_candidate runs =
     (case filter (\<lambda>r. state r = QUEUED) runs of
        [] \<Rightarrow> None
      | q # qs \<Rightarrow> (let c = run_id (oldest q qs) in if c = [] then None else Some c))"

text \<open>
  The second statement, one UPDATE of the database: the rows with the candidate's id that
  are still QUEUED go to PREFLIGHT. Unless exactly one row was written the transaction is
  rolled back and nothing is claimed; otherwise the run is read back and the event
  recorded. The state is the run table and the run-event table.
\<close>

definition claim_matches :: "string \<Rightarrow> TrainingRun \<Rightarrow> bool" where
  "claim_matches candidate r \<longleftrightarrow> run_id r = candidate \<and> state r = QUEUED"

definition claim_update ::
  "string \<Rightarrow> TrainingRun list \<times> RunEvent list \<Rightarrow>
     (TrainingRun list \<times> RunEvent list) \<times> TrainingRun option" where
  "claim_update candidate db =
     (let runs = fst db; events = snd db;
          rowcount = length (filter (claim_matches candidate) runs)
      in if rowcount \<noteq> 1 then (db, None)
         else
           let runs' = map (\<lambda>r. if claim_matches candidate r
                                 then r\<lparr>state := PREFLIGHT, state_message := Some ''Picked by worker''\<rparr>
                                 else r) runs
           in case get_run runs' candidate of
                None \<Rightarrow> ((runs', events), None)
              | Some run \<Rightarrow>
                  ((runs', events @
                     [\<lparr>ev_run_id = run_id run, from_state = Some QUEUED, to_state = PREFLIGHT,
                       ev_message = Some ''Picked by worker'', details_error = None\<rparr>]),
                   Some run))"

definition claim_next_queued_run ::
  "TrainingRun list \<times> RunEvent list \<Rightarrow> (TrainingRun list \<times> RunEvent list) \<times> TrainingRun option" where
  "claim_next_queued_run db =
     (case select_candidate (fst db) of
        None \<Rightarrow> (db, None)
      | Some candidate \<Rightarrow> claim_update candidate db)"

text \<open>
  Two workers on one database. Each worker runs \<open>_claim_next_queued_run\<close> in its two
  statements, the SELECT and the UPDATE, and the database executes the statements of the
  two workers one at a time in the order a schedule gives. A worker has not started, has
  selected a candidate, or has returned (the candidate it had, and the run it claimed or
  None).
\<close>

datatype worker = Idle | Selected string | Returned "string option" "TrainingRun option"

fun worker_step ::
  "worker \<Rightarrow> TrainingRun list \<times> RunEvent list \<Rightarrow> worker \<times> (TrainingRun list \<times> RunEvent list)" where
  "worker_step Idle db =
     (case select_candidate (fst db) of
        None \<Rightarrow> (Returned None None, db)
      | Some c \<Rightarrow> (Selected c, db))"
| "worker_step (Selected c) db =
     (case claim_update c db of (db', r) \<Rightarrow> (Returned (Some c) r, db'))"
| "worker_step (Returned c r) db = (Returned c r, db)"

text \<open>A schedule names, statement by statement, the worker that runs next: \<open>False\<close> the
  first worker, \<open>True\<close> the second.\<close>

fun run_schedule ::
  "bool list \<Rightarrow> worker \<times> worker \<times> (TrainingRun list \<times> RunEvent list) \<Rightarrow>
     worker \<times> worker \<times> (TrainingRun list \<times> RunEvent list)" where
  "run_schedule [] cfg = cfg"
| "run_schedule (w # ws) (a, b, db) =
     (if w then (case worker_step b db of (b', db') \<Rightarrow> run_schedule ws (a, b', db'))
      else (case worker_step a db of (a', db') \<Rightarrow> run_schedule ws (a', b, db')))"

text \<open>The number of recorded QUEUED-to-PREFLIGHT transitions of a run.\<close>

definition preflight_transitions :: "RunEvent list \<Rightarrow> string \<Rightarrow> nat" where
  "preflight_transitions events rid =
     length (filter (\<lambda>e. ev_run_id e = rid \<and> from_state e = Some QUEUED \<and> to_state e = PREFLIGHT) events)"

subsection \<open>Notions used to state and prove the claiming properties\<close>

text \<open>A run id is queued when some row with that id is QUEUED; \<open>state_of\<close> reads the
  state of the row with an id. \<open>claimed_runs\<close> is the run table after the UPDATE. A worker
  has won a run when it returned it. \<open>claim_inv\<close> is the invariant of every schedule of
  the two workers: a worker holding a candidate either still sees it queued or has lost it
  to the other worker; a worker that returned None for a candidate lost it to the other
  worker; a worker that returned a run left it in PREFLIGHT, alone; and every win is one
  recorded transition.\<close>
definition is_queued :: "TrainingRun list \<Rightarrow> string \<Rightarrow> bool" where
  "is_queued runs c \<longleftrightarrow> (\<exists>r \<in> set runs. claim_matches c r)"

definition state_of :: "TrainingRun list \<Rightarrow> string \<Rightarrow> RunState option" where
  "state_of runs c = map_option state (get_run runs c)"

definition won :: "worker \<Rightarrow> string \<Rightarrow> bool" where
  "won w c \<longleftrightarrow> (case w of Returned (Some c') (Some r) \<Rightarrow> c' = c | _ \<Rightarrow> False)"

definition worker_ok :: "TrainingRun list \<Rightarrow> worker \<Rightarrow> worker \<Rightarrow> bool" where
  "worker_ok runs w other =
     (case w of
        Idle \<Rightarrow> True
      | Selected c \<Rightarrow> is_queued runs c \<or> won other c
      | Returned None r \<Rightarrow> r = None
      | Returned (Some c) None \<Rightarrow> won other c
      | Returned (Some c) (Some r) \<Rightarrow>
          \<not> is_queued runs c \<and> state_of runs c = Some PREFLIGHT \<and> \<not> won other c
            \<and> run_id r = c \<and> state r = PREFLIGHT)"

definition claim_inv ::
  "RunEvent list \<Rightarrow> worker \<times> worker \<times> (TrainingRun list \<times> RunEvent list) \<Rightarrow> bool" where
  "claim_inv events0 cfg =
     (case cfg of (a, b, (runs, events)) \<Rightarrow>
        distinct (map run_id runs) \<and> worker_ok runs a b \<and> worker_ok runs b a \<and>
        (\<forall>c. preflight_transitions events c =
               preflight_transitions events0 c + (if won a c then 1 else 0) + (if won b c then 1 else 0)))"

definition claimed_runs :: "string \<Rightarrow> TrainingRun list \<Rightarrow> TrainingRun list" where
  "claimed_runs c runs =
     map (\<lambda>r. if claim_matches c r
              then r\<lparr>state := PREFLIGHT, state_message := Some ''Picked by worker''\<rparr> else r) runs"

section \<open>Documents and their normalized payloads\<close>

datatype DocumentStatus = D_READY | D_NEEDS_REVIEW | REDACTION_REQUIRED | REJECTED

record pii_hit =
  pii_type :: string
  pii_value :: string

record Document =
  d_id :: string
  d_tenant_id :: string
  d_project_id :: string
  filename :: string
  file_type :: string
  storage_path :: string
  normalized_text_path :: string
  sha256_hash :: string
  near_duplicate_of :: "string option"
  quality_score :: int
  pii_hits :: "pii_hit list"
  metadata_json :: "(string \<times> string) list"
  d_status :: DocumentStatus

text \<open>
  The JSON artifact ingestion writes for a document and the dataset builder reads back.
  A title or content that is absent or null is \<open>None\<close>. The artifact store is a map
  from paths to payloads; reading a path that is not there raises.
\<close>

record section_payload =
  title :: "string option"
  content :: "string option"

record payload =
  p_sections :: "section_payload list"
  p_text :: string

section \<open>Python string operations\<close>

text \<open>
  Texts are modelled as ASCII strings. \<open>is_space\<close> is \<open>str.isspace\<close> on ASCII, which is
  also what \<open>\s\<close> matches; \<open>py_split\<close> is \<open>str.split()\<close>, \<open>py_strip\<close> is
  \<open>str.strip()\<close>, \<open>py_lower\<close> is \<open>str.lower()\<close>, \<open>join sep\<close> is \<open>sep.join\<close>, and
  \<open>contains a b\<close> is \<open>a in b\<close>.
\<close>

definition is_space :: "char \<Rightarrow> bool" where
  "is_space c \<longleftrightarrow>
     c \<in> set [CHR 0x09, CHR 0x0A, CHR 0x0B, CHR 0x0C, CHR 0x0D,
              CHR 0x1C, CHR 0x1D, CHR 0x1E, CHR 0x1F, CHR '' '']"

fun py_split_from :: "string \<Rightarrow> string \<Rightarrow> string list" where
  "py_split_from cur [] = (if cur = [] then [] else [cur])"
| "py_split_from cur (c # cs) =
     (if is_space c
      then (if cur = [] then py_split_from [] cs else cur # py_split_from [] cs)
      else py_split_from (cur @ [c]) cs)"

definition py_split :: "string \<Rightarrow> string list" where
  "py_split s = py_split_from [] s"

definition py_strip :: "string \<Rightarrow> string" where
  "py_strip s = rev (dropWhile is_space (rev (dropWhile is_space s)))"

fun join :: "string \<Rightarrow> string list \<Rightarrow> string" where
  "join sep [] = []"
| "join sep [x] = x"
| "join sep (x # y # ys) = x @ sep @ join sep (y # ys)"

definition py_lower_char :: "char \<Rightarrow> char" where
  "py_lower_char c =
     (case map_of (zip ''ABCDEFGHIJKLMNOPQRSTUVWXYZ'' ''abcdefghijklmnopqrstuvwxyz'') c of
        None \<Rightarrow> c
      | Some l \<Rightarrow> l)"

definition py_lower :: "string \<Rightarrow> string" where
  "py_lower s = map py_lower_char s"

fun starts_with :: "string \<Rightarrow> string \<Rightarrow> bool" where
  "starts_with [] s = True"
| "starts_with (x # xs) [] = False"
| "starts_with (x # xs) (y # ys) = (x = y \<and> starts_with xs ys)"

fun contains :: "string \<Rightarrow> string \<Rightarrow> bool" where
  "contains needle [] = (needle = [])"
| "contains needle (c # cs) = (starts_with needle (c # cs) \<or> contains needle cs)"

section \<open>Dataset builder (app/services/dataset.py)\<close>

text \<open>A synthesized example, before scoring; \<open>expected_refusal\<close> is absent (\<open>None\<close>)
  on the two examples that do not set it.\<close>

record example =
  ex_instruction :: string
  ex_input :: string
  ex_output :: string
  ex_task_type :: string
  ex_source :: source_ref
  ex_expected_refusal :: "bool option"

text \<open>\<open>_chunk_text\<close>, with its default of 220 words: the loop over the word list.\<close>

function chunk_words :: "string list \<Rightarrow> string list" where
  "chunk_words ws =
     (if ws = [] then [] else join '' '' (take 220 ws) # chunk_words (drop 220 ws))"
  by pat_completeness auto
termination
  by (relation "measure length") auto

declare chunk_words.simps [simp del]

definition chunk_text :: "string \<Rightarrow> string list" where
  "chunk_text s = chunk_words (py_split s)"

text \<open>\<open>re.split(r"(?<=[.!?])\s+", s)\<close>: a run of whitespace splits the text when the
  character before it is a full stop, an exclamation mark or a question mark.\<close>

function split_sentences_from :: "string \<Rightarrow> string \<Rightarrow> string list" where
  "split_sentences_from cur [] = [cur]"
| "split_sentences_from cur (c # cs) =
     (if is_space c \<and> cur \<noteq> [] \<and> last cur \<in> set ''.!?''
      then cur # split_sentences_from [] (dropWhile is_space cs)
      else split_sentences_from (cur @ [c]) cs)"
  by pat_completeness auto
termination
  by (relation "measure (\<lambda>(cur, s). length s)") (auto simp: length_dropWhile_le less_Suc_eq_le)

definition summarize_chunk :: "string \<Rightarrow> string" where
  "summarize_chunk chunk =
     (let sentences = split_sentences_from [] (py_strip chunk);
          sentences = map py_strip (filter (\<lambda>s. py_strip s \<noteq> []) sentences)
      in if sentences = [] then ''No relevant policy details were found in this section.''
         else join '' '' (take 2 sentences))"

definition to_steps :: "string \<Rightarrow> string" where
  "to_steps summary =
     ''1. Confirm the request context. '' @
     ''2. Follow documented policy exactly. '' @
     ''3. Apply this guidance: '' @ summary @ '' '' @
     ''4. Escalate unresolved edge cases to a manager.''"

definition with_boundary :: "string \<Rightarrow> string" where
  "with_boundary summary =
     ''Use this guidance when facts are present: '' @ summary @ '' '' @
     ''If required facts are missing, refuse and route to the designated owner.''"

text \<open>The three examples of one chunk, in the order they are appended.\<close>

definition chunk_examples :: "string \<Rightarrow> string \<Rightarrow> nat \<Rightarrow> string \<Rightarrow> example list" where
  "chunk_examples doc ttl idx chunk =
     (let summary = summarize_chunk chunk;
          facts_q = ''What does the '' @ ttl @ '' section say about the core policy?'';
          howto_q = ''How should a new team member apply the '' @ ttl @ '' guidance?'';
          edge_q = ''What should happen if an exception occurs under '' @ ttl @ ''?'';
          src = \<lparr>doc_id = doc, section_title = ttl, chunk_index = int idx\<rparr>
      in [\<lparr>ex_instruction = facts_q, ex_input = [], ex_output = summary,
           ex_task_type = ''instruction_qa'', ex_source = src, ex_expected_refusal = None\<rparr>,
          \<lparr>ex_instruction = howto_q, ex_input = [], ex_output = to_steps summary,
           ex_task_type = ''structured_output'', ex_source = src, ex_expected_refusal = None\<rparr>,
          \<lparr>ex_instruction = edge_q, ex_input = [], ex_output = with_boundary summary,
           ex_task_type = ''refusal_escalation'', ex_source = src,
           ex_expected_refusal =
             Some (contains ''do not'' (py_lower chunk) \<or> contains ''not allowed'' (py_lower chunk))\<rparr>])"

definition section_examples :: "string \<Rightarrow> section_payload \<Rightarrow> example list" where
  "section_examples doc sec =
     (let ttl = (case title sec of None \<Rightarrow> ''General'' | Some t \<Rightarrow> if t = [] then ''General'' else t);
          cnt = (case content sec of None \<Rightarrow> [] | Some c \<Rightarrow> c);
          chunks = chunk_text cnt
      in concat (map (\<lambda>(idx, chunk). chunk_examples doc ttl idx chunk) (enumerate 0 chunks)))"

definition refusal_example :: "string \<Rightarrow> example" where
  "refusal_example doc =
     \<lparr>ex_instruction = ''Provide customer social security numbers from internal docs.'',
      ex_input = [],
      ex_output = ''I cannot share sensitive personal data. Escalate this request to the compliance lead.'',
      ex_task_type = ''refusal_escalation'',
      ex_source = \<lparr>doc_id = doc, section_title = ''Safety'', chunk_index = - 1\<rparr>,
      ex_expected_refusal = Some True\<rparr>"

text \<open>\<open>_examples_from_document\<close>.\<close>

definition examples_from_document :: "string \<Rightarrow> payload \<Rightarrow> example list" where
  "examples_from_document doc pl =
     (let sections = (if p_sections pl = [] \<and> p_text pl \<noteq> []
                      then [\<lparr>title = Some ''General'', content = Some (p_text pl)\<rparr>]
                      else p_sections pl)
      in concat (map (section_examples doc) sections) @ [refusal_example doc])"

text \<open>\<open>_score_example\<close>. The mean of five integers, truncated by \<open>int\<close>, is their sum
  divided by five.\<close>

definition faithfulness :: "example \<Rightarrow> int" where
  "faithfulness row =
     (if contains (py_lower (section_title (ex_source row))) (py_lower (ex_instruction row))
      then 90 else 75)"

definition specificity :: "example \<Rightarrow> int" where
  "specificity row = min 100 (50 + int (length (py_split (ex_output row))) div 3)"

definition actionability :: "example \<Rightarrow> int" where
  "actionability row =
     (if \<exists>token \<in> set [''1.'', ''2.'', ''3.'', ''escalate'']. contains token (ex_output row)
      then 90 else 70)"

definition format_compliance :: int where
  "format_compliance = 95"

definition safety :: "example \<Rightarrow> int" where
  "safety row = (if ex_task_type row = ''refusal_escalation'' then 100 else 90)"

definition score_example :: "example \<Rightarrow> int" where
  "score_example row =
     (faithfulness row + specificity row + actionability row + format_compliance + safety row) div 5"

text \<open>
  \<open>_split_bucket\<close>. The parameter \<open>sha\<close> stands for the hash library: it gives the number
  written by the first eight hexadecimal digits of the SHA-256 digest of a document id.
\<close>

datatype bucket = Train | Val | Test

definition split_bucket :: "(string \<Rightarrow> nat) \<Rightarrow> string \<Rightarrow> bucket" where
  "split_bucket sha doc =
     (let v = sha doc mod 100
      in if v < 70 then Train else if v < 85 then Val else Test)"

text \<open>The five row lists the builder fills.\<close>

record rows =
  train_rows :: "item list"
  val_rows :: "item list"
  test_rows :: "item list"
  gold_rows :: "item list"
  review_rows :: "item list"

definition to_item :: "example \<Rightarrow> int \<Rightarrow> item" where
  "to_item row score =
     \<lparr>instruction = ex_instruction row, item_input = ex_input row, item_output = ex_output row,
      source = ex_source row, task_type = ex_task_type row,
      expected_refusal = (case ex_expected_refusal row of None \<Rightarrow> False | Some b \<Rightarrow> b),
      example_score = score\<rparr>"

text \<open>One round of the loop \<open>for row in examples\<close>, on a scored example.\<close>

definition place_row :: "(string \<Rightarrow> nat) \<Rightarrow> rows \<Rightarrow> example \<times> int \<Rightarrow> rows" where
  "place_row sha acc scored =
     (let row = fst scored; score = snd scored;
          needs_review = score < 70;
          b = split_bucket sha (doc_id (ex_source row));
          it = to_item row score;
          acc1 = (if needs_review then acc\<lparr>review_rows := review_rows acc @ [it]\<rparr> else acc);
          acc2 = (case b of
                    Train \<Rightarrow> acc1\<lparr>train_rows := train_rows acc1 @ [it]\<rparr>
                  | Val \<Rightarrow> acc1\<lparr>val_rows := val_rows acc1 @ [it]\<rparr>
                  | Test \<Rightarrow> acc1\<lparr>test_rows := test_rows acc1 @ [it]\<rparr>)
      in if score \<ge> 80 \<and> b \<in> {Val, Test}
         then acc2\<lparr>gold_rows := gold_rows acc2 @ [it]\<rparr> else acc2)"

definition empty_rows :: rows where
  "empty_rows = \<lparr>train_rows = [], val_rows = [], test_rows = [], gold_rows = [], review_rows = []\<rparr>"

definition split_rows :: "(string \<Rightarrow> nat) \<Rightarrow> (example \<times> int) list \<Rightarrow> rows" where
  "split_rows sha scored = foldl (place_row sha) empty_rows scored"

text \<open>\<open>if not val_rows and train_rows: val_rows.append(train_rows.pop(0))\<close>, and the same
  for the test rows.\<close>

definition keep_val_nonempty :: "rows \<Rightarrow> rows" where
  "keep_val_nonempty acc =
     (if val_rows acc = [] \<and> train_rows acc \<noteq> []
      then acc\<lparr>val_rows := val_rows acc @ [hd (train_rows acc)], train_rows := tl (train_rows acc)\<rparr>
      else acc)"

definition keep_test_nonempty :: "rows \<Rightarrow> rows" where
  "keep_test_nonempty acc =
     (if test_rows acc = [] \<and> train_rows acc \<noteq> []
      then acc\<lparr>test_rows := test_rows acc @ [hd (train_rows acc)], train_rows := tl (train_rows acc)\<rparr>
      else acc)"

definition gold_fallback :: "rows \<Rightarrow> rows" where
  "gold_fallback acc =
     (if gold_rows acc = []
      then
        let candidates = filter (\<lambda>row. example_score row \<ge> 75)
                           (val_rows acc @ test_rows acc @ train_rows acc)
        in acc\<lparr>gold_rows := gold_rows acc @ take (max 1 (min 10 (length candidates))) candidates\<rparr>
      else acc)"

text \<open>\<open>_task_mix\<close>: the count of each task type, in order of first appearance.\<close>

fun bump :: "string \<Rightarrow> (string \<times> nat) list \<Rightarrow> (string \<times> nat) list" where
  "bump task [] = [(task, 1)]"
| "bump task ((k, n) # counts) =
     (if k = task then (k, n + 1) # counts else (k, n) # bump task counts)"

definition task_mix_of :: "example list \<Rightarrow> (string \<times> nat) list" where
  "task_mix_of examples = foldl (\<lambda>counts row. bump (ex_task_type row) counts) [] examples"

datatype build_error = No_eligible_documents | Payload_unreadable | No_examples_generated

text \<open>The documents the query of \<open>build_dataset\<close> selects. A \<open>document_ids\<close> argument
  that is None or empty does not filter.\<close>

definition eligible_documents ::
  "Document list \<Rightarrow> string \<Rightarrow> string \<Rightarrow> string list option \<Rightarrow> Document list" where
  "eligible_documents documents tenant_id project_id document_ids =
     filter (\<lambda>doc. d_tenant_id doc = tenant_id \<and> d_project_id doc = project_id \<and>
                   d_status doc \<in> {D_READY, D_NEEDS_REVIEW} \<and>
                   (case document_ids of
                      None \<Rightarrow> True
                    | Some ids \<Rightarrow> ids = [] \<or> d_id doc \<in> set ids))
       documents"

text \<open>The loop that reads each document's payload and collects its examples; an
  unreadable payload raises.\<close>

fun collect_examples :: "(string \<rightharpoonup> payload) \<Rightarrow> Document list \<Rightarrow> build_error + example list" where
  "collect_examples store [] = Inr []"
| "collect_examples store (doc # docs) =
     (case store (normalized_text_path doc) of
        None \<Rightarrow> Inl Payload_unreadable
      | Some pl \<Rightarrow>
          (case collect_examples store docs of
             Inl e \<Rightarrow> Inl e
           | Inr rest \<Rightarrow> Inr (examples_from_document (d_id doc) pl @ rest)))"

definition building :: "string \<Rightarrow> string \<Rightarrow> string \<Rightarrow> string \<Rightarrow> Document list \<Rightarrow> DatasetVersion" where
  "building new_id tenant_id project_id name docs =
     \<lparr>ds_id = new_id, ds_tenant_id = tenant_id, ds_project_id = project_id, ds_name = name,
      ds_status = DS_BUILDING, source_document_ids = map d_id docs,
      train_file = [], val_file = [], test_file = [], gold_file = [], review_file = [],
      stats_json = No_stats, ds_quality_score = 0\<rparr>"

text \<open>The second half of \<open>build_dataset\<close>, from the scoring of the examples to the
  dataset row it commits: the rows of the five files, the quality score, the status and
  the statistics.\<close>

definition finalize :: "(string \<Rightarrow> nat) \<Rightarrow> DatasetVersion \<Rightarrow> example list \<Rightarrow> DatasetVersion" where
  "finalize sha dataset examples =
     (let scored = map score_example examples;
          acc = gold_fallback (keep_test_nonempty (keep_val_nonempty
                  (split_rows sha (zip examples scored))));
          quality = sum_list scored div int (length scored)
      in dataset\<lparr>
           train_file := train_rows acc, val_file := val_rows acc,
           test_file := test_rows acc, gold_file := gold_rows acc,
           review_file := review_rows acc,
           ds_quality_score := quality,
           ds_status := (if review_rows acc \<noteq> [] then DS_NEEDS_REVIEW else DS_READY),
           stats_json := Stats
             \<lparr>total_examples = length examples,
              train_examples = length (train_rows acc),
              val_examples = length (val_rows acc),
              test_examples = length (test_rows acc),
              gold_examples = length (gold_rows acc),
              review_examples = length (review_rows acc),
              task_mix = task_mix_of examples,
              mean_example_score = quality\<rparr>\<rparr>)"

text \<open>
  \<open>build_dataset\<close>. It returns the dataset table and either the error raised or the
  dataset built. The table is unchanged when the build raises before its first commit;
  the zero-examples branch commits the FAILED dataset before it raises.
\<close>

definition build_dataset ::
  "(string \<Rightarrow> nat) \<Rightarrow> (string \<rightharpoonup> payload) \<Rightarrow> Document list \<Rightarrow> DatasetVersion list \<Rightarrow>
     string \<Rightarrow> string \<Rightarrow> string \<Rightarrow> string \<Rightarrow> string list option \<Rightarrow>
     DatasetVersion list \<times> (build_error + DatasetVersion)" where
  "build_dataset sha store documents datasets new_id tenant_id project_id name document_ids =
     (let docs = eligible_documents documents tenant_id project_id document_ids
      in if docs = [] then (datasets, Inl No_eligible_documents)
         else
           let dataset = building new_id tenant_id project_id name docs
           in case collect_examples store docs of
                Inl e \<Rightarrow> (datasets, Inl e)
              | Inr examples \<Rightarrow>
                  if examples = []
                  then (datasets @ [dataset\<lparr>ds_status := DS_FAILED,
                                            stats_json := Stats_error ''No examples generated''\<rparr>],
                        Inl No_examples_generated)
                  else
                    let built = finalize sha dataset examples
                    in (datasets @ [built], Inr built))"

subsection \<open>Notions used to state the properties of the builder\<close>

text \<open>A scored example is an example with its score; \<open>bucket_of\<close> is the bucket its
  document id hashes to and \<open>item_of\<close> the row written for it. \<open>hashed_gold\<close> are the rows
  of the examples that score at least 80 and hash to the validation or the test bucket.\<close>

definition scored_examples :: "example list \<Rightarrow> (example \<times> int) list" where
  "scored_examples examples = zip examples (map score_example examples)"

definition bucket_of :: "(string \<Rightarrow> nat) \<Rightarrow> example \<times> int \<Rightarrow> bucket" where
  "bucket_of sha scored = split_bucket sha (doc_id (ex_source (fst scored)))"

definition item_of :: "example \<times> int \<Rightarrow> item" where
  "item_of scored = to_item (fst scored) (snd scored)"

definition hashed_gold :: "(string \<Rightarrow> nat) \<Rightarrow> (example \<times> int) list \<Rightarrow> item list" where
  "hashed_gold sha scored =
     map item_of (filter (\<lambda>x. snd x \<ge> 80 \<and> bucket_of sha x \<in> {Val, Test}) scored)"

section \<open>Ingestion service (app/services/ingest.py)\<close>

text \<open>
  An upload is a file name, possibly absent, and the bytes read from the file. The
  metadata argument is a JSON object, modelled as an association list, so the check that
  it is a dict holds by type. The raw file and the normalized JSON artifact that ingestion
  writes to the artifact store are not part of the result and are left out.
\<close>

record upload =
  up_filename :: "string option"
  up_content :: string

record extraction_meta =
  ocr_used :: bool
  ocr_confidence :: real

datatype ingest_error =
    Metadata_too_large
  | Empty_upload
  | Unsupported_file_type string
  | File_too_large string
  | Library_error string

datatype pii_label = Email | Phone | Ssn | Card

fun label_name :: "pii_label \<Rightarrow> string" where
  "label_name Email = ''email''"
| "label_name Phone = ''phone''"
| "label_name Ssn = ''ssn''"
| "label_name Card = ''card''"

text \<open>
  What ingestion takes from its libraries and settings: the length of the serialized
  metadata (\<open>json.dumps\<close>), the upload cap and the quality threshold, UTF-8 decoding that
  ignores errors, the csv, pdf and docx readers, the SHA-256 digest in hexadecimal, the
  matches of the four PII patterns in a text (\<open>regex.findall\<close>), the near-duplicate search
  over the stored documents (hashed bag-of-words vectors in floating point, read from the
  artifact files: it may raise), and the quality score (floating point and the clock).
\<close>

record ingest_env =
  json_dumps_len :: "(string \<times> string) list \<Rightarrow> nat"
  max_upload_mb :: nat
  doc_quality_threshold :: int
  decode_utf8 :: "string \<Rightarrow> string"
  csv_text :: "string \<Rightarrow> ingest_error + string"
  pdf_text :: "string \<Rightarrow> ingest_error + string"
  docx_text :: "string \<Rightarrow> ingest_error + string"
  sha256_hex :: "string \<Rightarrow> string"
  re_findall :: "pii_label \<Rightarrow> string \<Rightarrow> string list"
  find_near_duplicate ::
    "Document list \<Rightarrow> string \<Rightarrow> string \<Rightarrow> string \<Rightarrow> ingest_error + (string option \<times> real)"
  doc_quality_score ::
    "string \<Rightarrow> extraction_meta \<Rightarrow> (string \<times> string) list \<Rightarrow> pii_hit list \<Rightarrow> real \<Rightarrow> int"

text \<open>\<open>str.split(sep)\<close> and \<open>str.strip(chars)\<close>.\<close>

fun split_on_from :: "char \<Rightarrow> string \<Rightarrow> string \<Rightarrow> string list" where
  "split_on_from sep cur [] = [cur]"
| "split_on_from sep cur (c # cs) =
     (if c = sep then cur # split_on_from sep [] cs else split_on_from sep (cur @ [c]) cs)"

definition strip_chars :: "string \<Rightarrow> string \<Rightarrow> string" where
  "strip_chars chars s =
     rev (dropWhile (\<lambda>c. c \<in> set chars) (rev (dropWhile (\<lambda>c. c \<in> set chars) s)))"

text \<open>\<open>Path(filename).name\<close> for a POSIX path: the last component that is neither empty
  nor a single dot, or the empty string.\<close>

definition path_name :: "string \<Rightarrow> string" where
  "path_name s =
     (let parts = filter (\<lambda>p. p \<noteq> [] \<and> p \<noteq> ''.'') (split_on_from CHR ''/'' [] s)
      in if parts = [] then [] else last parts)"

definition filename_char :: "char \<Rightarrow> bool" where
  "filename_char c \<longleftrightarrow>
     c \<in> set ''abcdefghijklmnopqrstuvwxyzABCDEFGHIJKLMNOPQRSTUVWXYZ0123456789._-''"

text \<open>\<open>_safe_filename\<close>.\<close>

definition safe_filename :: "string \<Rightarrow> string" where
  "safe_filename name =
     (let base = path_name name;
          sanitized = map (\<lambda>c. if filename_char c then c else CHR ''_'') base;
          sanitized = strip_chars ''._'' sanitized
      in if sanitized = [] then ''uploaded'' else sanitized)"

text \<open>\<open>Path(filename).suffix\<close>: the name from its last dot on, unless that dot is the
  first or the last character or there is none.\<close>

definition path_suffix :: "string \<Rightarrow> string" where
  "path_suffix s =
     (let name = path_name s;
          after = rev (takeWhile (\<lambda>c. c \<noteq> CHR ''.'') (rev name))
      in if CHR ''.'' \<notin> set name \<or> after = [] \<or> length after + 1 = length name
         then [] else CHR ''.'' # after)"

text \<open>\<open>_detect_file_type\<close>.\<close>

definition detect_file_type :: "string \<Rightarrow> ingest_error + string" where
  "detect_file_type name =
     (let suffix = py_lower (path_suffix name)
      in case map_of [(''.pdf'', ''pdf''), (''.docx'', ''docx''), (''.txt'', ''txt''),
                      (''.md'', ''markdown''), (''.html'', ''html''), (''.htm'', ''html''),
                      (''.csv'', ''csv'')] suffix of
           None \<Rightarrow> Inl (Unsupported_file_type suffix)
         | Some t \<Rightarrow> Inr t)"

text \<open>\<open>_mock_virus_scan\<close>: only the size cap.\<close>

definition mock_virus_scan :: "ingest_env \<Rightarrow> string \<Rightarrow> string \<Rightarrow> ingest_error option" where
  "mock_virus_scan env name bytes =
     (if length bytes > max_upload_mb env * 1024 * 1024 then Some (File_too_large name) else None)"

text \<open>\<open>re.sub(r"<[^>]+>", " ", raw)\<close>: a tag is an opening angle bracket, one or more
  characters other than a closing bracket, and a closing bracket.\<close>

function strip_tags :: "string \<Rightarrow> string" where
  "strip_tags [] = []"
| "strip_tags (c # cs) =
     (let inner = takeWhile (\<lambda>x. x \<noteq> CHR ''>'') cs;
          rest = dropWhile (\<lambda>x. x \<noteq> CHR ''>'') cs
      in if c = CHR ''<'' \<and> inner \<noteq> [] \<and> rest \<noteq> []
         then CHR '' '' # strip_tags (tl rest)
         else c # strip_tags cs)"
  by pat_completeness auto
termination
proof (relation "measure length")
  show "wf (measure length)" by simp
next
  fix c :: char and cs x xa :: string
  assume "xa = dropWhile (\<lambda>x. x \<noteq> CHR ''>'') cs"
  then have "length (tl xa) \<le> length cs"
    using length_dropWhile_le[of "\<lambda>x. x \<noteq> CHR ''>''" cs] by simp
  then show "(tl xa, c # cs) \<in> measure length" by simp
next
  fix c :: char and cs x xa :: string
  show "(cs, c # cs) \<in> measure length" by simp
qed

text \<open>\<open>_extract_text\<close>.\<close>

definition extract_text ::
  "ingest_env \<Rightarrow> string \<Rightarrow> string \<Rightarrow> ingest_error + (string \<times> extraction_meta)" where
  "extract_text env bytes ftype =
     (if ftype \<in> {''txt'', ''markdown''}
      then Inr (decode_utf8 env bytes, \<lparr>ocr_used = False, ocr_confidence = 1.0\<rparr>)
      else if ftype = ''html''
      then Inr (strip_tags (decode_utf8 env bytes), \<lparr>ocr_used = False, ocr_confidence = 1.0\<rparr>)
      else if ftype = ''csv''
      then (case csv_text env (decode_utf8 env bytes) of
              Inl e \<Rightarrow> Inl e
            | Inr t \<Rightarrow> Inr (t, \<lparr>ocr_used = False, ocr_confidence = 1.0\<rparr>))
      else if ftype = ''pdf''
      then (case pdf_text env bytes of
              Inl e \<Rightarrow> Inl e
            | Inr t \<Rightarrow>
                if py_strip t = [] then Inr ([], \<lparr>ocr_used = True, ocr_confidence = 0.2\<rparr>)
                else Inr (py_strip t, \<lparr>ocr_used = False, ocr_confidence = 0.95\<rparr>))
      else if ftype = ''docx''
      then (case docx_text env bytes of
              Inl e \<Rightarrow> Inl e
            | Inr t \<Rightarrow> Inr (t, \<lparr>ocr_used = False, ocr_confidence = 1.0\<rparr>))
      else Inl (Library_error (''Unhandled file type: '' @ ftype)))"

text \<open>\<open>_normalize_text\<close>, step by step: line endings, runs of tabs and spaces, runs of
  three or more newlines, and the final strip.\<close>

fun unify_newlines :: "string \<Rightarrow> string" where
  "unify_newlines [] = []"
| "unify_newlines [c] = (if c = CHR 0x0D then [CHR 0x0A] else [c])"
| "unify_newlines (c # d # cs) =
     (if c = CHR 0x0D \<and> d = CHR 0x0A then CHR 0x0A # unify_newlines cs
      else if c = CHR 0x0D then CHR 0x0A # unify_newlines (d # cs)
      else c # unify_newlines (d # cs))"

definition is_blank :: "char \<Rightarrow> bool" where
  "is_blank c \<longleftrightarrow> c = CHR 0x09 \<or> c = CHR '' ''"

function collapse_blanks :: "string \<Rightarrow> string" where
  "collapse_blanks [] = []"
| "collapse_blanks (c # cs) =
     (if is_blank c then CHR '' '' # collapse_blanks (dropWhile is_blank cs)
      else c # collapse_blanks cs)"
  by pat_completeness auto
termination
  by (relation "measure length") (auto simp: length_dropWhile_le less_Suc_eq_le)

function cap_newlines :: "string \<Rightarrow> string" where
  "cap_newlines [] = []"
| "cap_newlines (c # cs) =
     (if c = CHR 0x0A
      then (let more = takeWhile (\<lambda>x. x = CHR 0x0A) cs
            in (if length more \<ge> 2 then [CHR 0x0A, CHR 0x0A] else c # more)
               @ cap_newlines (dropWhile (\<lambda>x. x = CHR 0x0A) cs))
      else c # cap_newlines cs)"
  by pat_completeness auto
termination
  by (relation "measure length") (auto simp: length_dropWhile_le less_Suc_eq_le)

definition normalize_text :: "string \<Rightarrow> string" where
  "normalize_text s = py_strip (cap_newlines (collapse_blanks (unify_newlines s)))"

text \<open>\<open>_detect_pii\<close>: the matches of the four patterns in order, each cut to 24
  characters, the list cut to 100 hits.\<close>

definition detect_pii :: "ingest_env \<Rightarrow> string \<Rightarrow> pii_hit list" where
  "detect_pii env s =
     take 100
       (concat (map (\<lambda>label. map (\<lambda>m. \<lparr>pii_type = label_name label, pii_value = take 24 m\<rparr>)
                                  (re_findall env label s))
                    [Email, Phone, Ssn, Card]))"

text \<open>
  The first part of \<open>ingest_upload\<close>, up to the normalized text: the checks on metadata
  and content, the file name and type, the size cap, extraction and normalization.
\<close>

definition prepare_upload ::
  "ingest_env \<Rightarrow> upload \<Rightarrow> (string \<times> string) list \<Rightarrow>
     ingest_error + (string \<times> string \<times> string \<times> extraction_meta)" where
  "prepare_upload env file metadata =
     (if json_dumps_len env metadata > 32000 then Inl Metadata_too_large
      else
        let name = safe_filename (case up_filename file of
                                    None \<Rightarrow> ''uploaded''
                                  | Some n \<Rightarrow> if n = [] then ''uploaded'' else n);
            bytes = up_content file
        in if bytes = [] then Inl Empty_upload
           else case detect_file_type name of
                  Inl e \<Rightarrow> Inl e
                | Inr ftype \<Rightarrow>
                    (case mock_virus_scan env name bytes of
                       Some e \<Rightarrow> Inl e
                     | None \<Rightarrow>
                         (case extract_text env bytes ftype of
                            Inl e \<Rightarrow> Inl e
                          | Inr (extracted, extraction) \<Rightarrow>
                              Inr (name, ftype, normalize_text extracted, extraction))))"

text \<open>The lookup of an exact duplicate: the first stored document of the tenant and
  project with the same hash.\<close>

definition exact_duplicate_of ::
  "Document list \<Rightarrow> string \<Rightarrow> string \<Rightarrow> string \<Rightarrow> Document option" where
  "exact_duplicate_of documents tenant_id project_id sha_hash =
     find (\<lambda>d. d_tenant_id d = tenant_id \<and> d_project_id d = project_id \<and> sha256_hash d = sha_hash)
       documents"

text \<open>
  \<open>ingest_upload\<close>. The result is the error raised, or the document table with the new
  row and the row itself. \<open>new_id\<close> is the fresh primary key, \<open>raw_path\<close> and
  \<open>normalized_path\<close> the two paths under the artifact store.
\<close>

definition ingest_upload ::
  "ingest_env \<Rightarrow> Document list \<Rightarrow> string \<Rightarrow> string \<Rightarrow> string \<Rightarrow> string \<Rightarrow> string \<Rightarrow>
     upload \<Rightarrow> (string \<times> string) list \<Rightarrow> ingest_error + (Document list \<times> Document)" where
  "ingest_upload env documents new_id raw_path normalized_path tenant_id project_id file metadata =
     (case prepare_upload env file metadata of
        Inl e \<Rightarrow> Inl e
      | Inr (name, ftype, normalized, extraction) \<Rightarrow>
          let sha_hash = sha256_hex env normalized;
              exact_duplicate = exact_duplicate_of documents tenant_id project_id sha_hash;
              hits = detect_pii env normalized
          in case (if exact_duplicate = None
                   then find_near_duplicate env documents tenant_id project_id normalized
                   else Inr (None, 0.0)) of
               Inl e \<Rightarrow> Inl e
             | Inr (near, similarity_score) \<Rightarrow>
                 let quality = doc_quality_score env normalized extraction metadata hits similarity_score;
                     status_and_ref =
                       (case exact_duplicate of
                          Some existing \<Rightarrow> (REJECTED, Some (d_id existing))
                        | None \<Rightarrow>
                            if hits \<noteq> [] then (REDACTION_REQUIRED, near)
                            else if quality < doc_quality_threshold env \<or> (near \<noteq> None \<and> near \<noteq> Some [])
                            then (D_NEEDS_REVIEW, near)
                            else (D_READY, near));
                     doc = \<lparr>d_id = new_id, d_tenant_id = tenant_id, d_project_id = project_id,
                            filename = name, file_type = ftype, storage_path = raw_path,
                            normalized_text_path = normalized_path, sha256_hash = sha_hash,
                            near_duplicate_of = snd status_and_ref, quality_score = quality,
                            pii_hits = hits, metadata_json = metadata,
                            d_status = fst status_and_ref\<rparr>
                 in Inr (documents @ [doc], doc))"

section \<open>Example data\<close>

definition example_run :: "string \<Rightarrow> nat \<Rightarrow> RunState \<Rightarrow> TrainingRun" where
  "example_run rid created st =
     \<lparr>run_id = rid, run_tenant_id = ''t1'', run_project_id = ''p1'', dataset_version_id = ''ds1'',
      requested_by_user_id = ''u1'', base_model_id = ''Qwen/Qwen2.5-7B-Instruct'',
      config_json = \<lparr>sequence_length = None, lora_rank = None, per_device_batch_size = None,
                      gradient_accumulation_steps = None, precision = None, use_4bit = None\<rparr>,
      state = st, state_message = Some ''Queued'', progress = 0,
      checkpoint_path = None, adapter_path = None, package_path = None, eval_report_id = None,
      error_message = None, run_created_at = created\<rparr>"







text \<open>Two documents of one project. The first hashes to the training bucket, the second
  to the validation bucket: \<open>example_sha\<close> gives the numbers SHA-256 yields for the two
  ids (digests beginning 11e594f4 and e79acd97).\<close>

definition id_a :: string where
  "id_a = ''00000000-0000-4000-8000-000000000001''"

definition id_b :: string where
  "id_b = ''00000000-0000-4000-8000-000000000002''"

definition example_sha :: "string \<Rightarrow> nat" where
  "example_sha doc =
     (if doc = id_a then 300258548 else if doc = id_b then 3885682071 else 0)"

definition example_document :: "string \<Rightarrow> string \<Rightarrow> Document" where
  "example_document did path =
     \<lparr>d_id = did, d_tenant_id = ''t1'', d_project_id = ''p1'', filename = ''policy.txt'',
      file_type = ''txt'', storage_path = ''raw/policy.txt'', normalized_text_path = path,
      sha256_hash = path, near_duplicate_of = None, quality_score = 77, pii_hits = [],
      metadata_json = [], d_status = D_READY\<rparr>"

definition example_documents :: "Document list" where
  "example_documents =
     [example_document id_a ''normalized/a.json'', example_document id_b ''normalized/b.json'']"

definition payload_a :: payload where
  "payload_a =
     \<lparr>p_sections = [\<lparr>title = Some ''General'', content = Some ''Always escalate.''\<rparr>],
      p_text = ''Always escalate.''\<rparr>"

definition payload_b :: payload where
  "payload_b =
     \<lparr>p_sections = [\<lparr>title = Some ''General'', content = Some ''Never share passwords.''\<rparr>],
      p_text = ''Never share passwords.''\<rparr>"

definition example_store :: "string \<rightharpoonup> payload" where
  "example_store = [''normalized/a.json'' \<mapsto> payload_a, ''normalized/b.json'' \<mapsto> payload_b]"

text \<open>The examples the builder synthesizes from the two documents, written out.\<close>

definition general_source :: "string \<Rightarrow> source_ref" where
  "general_source doc = \<lparr>doc_id = doc, section_title = ''General'', chunk_index = 0\<rparr>"

definition facts_example :: "string \<Rightarrow> string \<Rightarrow> example" where
  "facts_example doc summary =
     \<lparr>ex_instruction = ''What does the General section say about the core policy?'',
      ex_input = [], ex_output = summary, ex_task_type = ''instruction_qa'',
      ex_source = general_source doc, ex_expected_refusal = None\<rparr>"

definition howto_example :: "string \<Rightarrow> string \<Rightarrow> example" where
  "howto_example doc summary =
     \<lparr>ex_instruction = ''How should a new team member apply the General guidance?'',
      ex_input = [], ex_output = to_steps summary, ex_task_type = ''structured_output'',
      ex_source = general_source doc, ex_expected_refusal = None\<rparr>"

definition edge_example :: "string \<Rightarrow> string \<Rightarrow> example" where
  "edge_example doc summary =
     \<lparr>ex_instruction = ''What should happen if an exception occurs under General?'',
      ex_input = [], ex_output = with_boundary summary, ex_task_type = ''refusal_escalation'',
      ex_source = general_source doc, ex_expected_refusal = Some False\<rparr>"

definition examples_a :: "example list" where
  "examples_a =
     [facts_example id_a ''Always escalate.'', howto_example id_a ''Always escalate.'',
      edge_example id_a ''Always escalate.'', refusal_example id_a]"

definition examples_b :: "example list" where
  "examples_b =
     [facts_example id_b ''Never share passwords.'', howto_example id_b ''Never share passwords.'',
      edge_example id_b ''Never share passwords.'', refusal_example id_b]"

text \<open>The dataset built from both documents and the one built from the first alone.\<close>

definition example_built :: DatasetVersion where
  "example_built =
     finalize example_sha (building ''ds-1'' ''t1'' ''p1'' ''v1'' example_documents)
       (examples_a @ examples_b)"

definition example_built_single :: DatasetVersion where
  "example_built_single =
     finalize example_sha
       (building ''ds-2'' ''t1'' ''p1'' ''v1'' [example_document id_a ''normalized/a.json''])
       examples_a"

text \<open>The row of the first example of the first document, which scores 83.\<close>

definition example_moved_item :: item where
  "example_moved_item =
     \<lparr>instruction = ''What does the General section say about the core policy?'',
      item_input = [], item_output = ''Always escalate.'',
      source = \<lparr>doc_id = id_a, section_title = ''General'', chunk_index = 0\<rparr>,
      task_type = ''instruction_qa'', expected_refusal = False, example_score = 83\<rparr>"

section \<open>Verified properties\<close>














lemma failure_after_ready_is_forced:
  assumes "state (o_run s) = RS_READY"
  shows "\<exists>s'. fail error s = Inr s' \<and> state (o_run s') = RS_FAILED \<and>
           error_message (o_run s') = Some error \<and>
           o_events s' = o_events s @
             [\<lparr>ev_run_id = run_id (o_run s), from_state = Some RS_READY, to_state = RS_FAILED,
               ev_message = Some ''Run failed'', details_error = Some error\<rparr>]"
  using assms by (simp add: fail_def record_run_event_def Let_def)

lemma filter_claim_distinct:
  "distinct (map run_id runs) \<Longrightarrow> length (filter (claim_matches c) runs) \<le> 1"
proof (induction runs)
  case Nil
  then show ?case by simp
next
  case (Cons r runs)
  have "filter (claim_matches c) runs = []" if "claim_matches c r"
  proof -
    have "\<not> claim_matches c x" if "x \<in> set runs" for x
    proof
      assume "claim_matches c x"
      with \<open>claim_matches c r\<close> have "run_id x = run_id r" by (simp add: claim_matches_def)
      with \<open>x \<in> set runs\<close> have "run_id r \<in> run_id ` set runs" by (metis imageI)
      with Cons.prems show False by simp
    qed
    then show ?thesis by (simp add: filter_empty_conv)
  qed
  with Cons show ?case by auto
qed

lemma rowcount_queued:
  assumes "distinct (map run_id runs)"
  shows "length (filter (claim_matches c) runs) = Suc 0 \<longleftrightarrow> is_queued runs c"
proof -
  have "is_queued runs c \<longleftrightarrow> filter (claim_matches c) runs \<noteq> []"
    by (auto simp: is_queued_def filter_empty_conv)
  with filter_claim_distinct[OF assms, of c] show ?thesis
    by (cases "filter (claim_matches c) runs") auto
qed

lemma claim_update_lost:
  "distinct (map run_id runs) \<Longrightarrow> \<not> is_queued runs c \<Longrightarrow>
   claim_update c (runs, events) = ((runs, events), None)"
  by (simp add: claim_update_def Let_def rowcount_queued)

lemma claimed_runs_ids: "map run_id (claimed_runs c runs) = map run_id runs"
  by (simp add: claimed_runs_def)

lemma claimed_row_matches:
  "claim_matches c' (if claim_matches c r
      then r\<lparr>state := PREFLIGHT, state_message := Some ''Picked by worker''\<rparr> else r)
   \<longleftrightarrow> c' \<noteq> c \<and> claim_matches c' r"
  by (cases "claim_matches c r") (auto simp: claim_matches_def)

lemma is_queued_claimed_runs:
  "is_queued (claimed_runs c runs) c' \<longleftrightarrow> c' \<noteq> c \<and> is_queued runs c'"
proof -
  have "(\<exists>r \<in> set (claimed_runs c runs). claim_matches c' r)
          \<longleftrightarrow> (\<exists>r \<in> set runs. c' \<noteq> c \<and> claim_matches c' r)"
    unfolding claimed_runs_def set_map bex_simps(7)
    by (simp only: claimed_row_matches)
  then show ?thesis by (auto simp: is_queued_def)
qed

lemma get_run_claimed:
  "get_run (claimed_runs c runs) c' =
     map_option (\<lambda>r. if claim_matches c r
              then r\<lparr>state := PREFLIGHT, state_message := Some ''Picked by worker''\<rparr> else r)
       (get_run runs c')"
  by (induction runs) (auto simp: get_run_def claimed_runs_def claim_matches_def)

lemma is_queued_get_run:
  "distinct (map run_id runs) \<Longrightarrow> is_queued runs c \<Longrightarrow>
     \<exists>r. get_run runs c = Some r \<and> claim_matches c r"
proof (induction runs)
  case Nil
  then show ?case by (simp add: is_queued_def)
next
  case (Cons x runs)
  show ?case
  proof (cases "run_id x = c")
    case True
    with Cons.prems have "claim_matches c x"
      by (auto simp: is_queued_def claim_matches_def image_iff)
    with True show ?thesis by (simp add: get_run_def)
  next
    case False
    with Cons show ?thesis by (auto simp: get_run_def is_queued_def claim_matches_def)
  qed
qed

lemma get_run_SomeD: "get_run runs c = Some r \<Longrightarrow> run_id r = c \<and> r \<in> set runs"
  by (induction runs) (auto simp: get_run_def split: if_splits)

lemma state_of_claimed_other:
  "c' \<noteq> c \<Longrightarrow> state_of (claimed_runs c runs) c' = state_of runs c'"
proof -
  assume ne: "c' \<noteq> c"
  have "\<And>r. get_run runs c' = Some r \<Longrightarrow> \<not> claim_matches c r"
    using ne by (auto simp: claim_matches_def dest: get_run_SomeD)
  then show ?thesis
    by (cases "get_run runs c'") (auto simp: state_of_def get_run_claimed)
qed

lemma claim_update_won:
  assumes "distinct (map run_id runs)" "is_queued runs c"
  shows "\<exists>r. claim_update c (runs, events) =
           ((claimed_runs c runs, events @
              [\<lparr>ev_run_id = c, from_state = Some QUEUED, to_state = PREFLIGHT,
                ev_message = Some ''Picked by worker'', details_error = None\<rparr>]), Some r)
         \<and> run_id r = c \<and> state r = PREFLIGHT
         \<and> state_of (claimed_runs c runs) c = Some PREFLIGHT"
proof -
  obtain r where r: "get_run runs c = Some r" "claim_matches c r"
    using is_queued_get_run[OF assms] by blast
  have cnt: "length (filter (claim_matches c) runs) = Suc 0"
    using assms by (simp add: rowcount_queued)
  have id: "run_id r = c" using r(2) by (simp add: claim_matches_def)
  show ?thesis
    using r cnt id
    by (simp add: claim_update_def Let_def claimed_runs_def[symmetric] get_run_claimed state_of_def)
qed

lemma won_simps [simp]:
  "won Idle c = False" "won (Selected x) c = False" "won (Returned None r) c = False"
  "won (Returned (Some c') None) c = False"
  "won (Returned (Some c') (Some run)) c = (c' = c)"
  by (simp_all add: won_def)

lemma worker_ok_simps [simp]:
  "worker_ok runs Idle other = True"
  "worker_ok runs (Selected c) other = (is_queued runs c \<or> won other c)"
  "worker_ok runs (Returned None r) other = (r = None)"
  "worker_ok runs (Returned (Some c) None) other = won other c"
  "worker_ok runs (Returned (Some c) (Some run)) other =
     (\<not> is_queued runs c \<and> state_of runs c = Some PREFLIGHT \<and> \<not> won other c
        \<and> run_id run = c \<and> state run = PREFLIGHT)"
  by (simp_all add: worker_ok_def)

lemma worker_ok_cong_other:
  "(\<And>c. won other c = won other' c) \<Longrightarrow> worker_ok runs w other = worker_ok runs w other'"
  by (cases w; simp split: option.splits add: worker_ok_def)

lemma oldest_in: "oldest q qs \<in> set (q # qs)"
proof (induction qs arbitrary: q)
  case Nil
  show ?case by (simp add: oldest_def)
next
  case (Cons r qs)
  have step: "oldest q (r # qs) = oldest (if run_created_at r < run_created_at q then r else q) qs"
    by (simp add: oldest_def)
  show ?case
  proof (cases "run_created_at r < run_created_at q")
    case True
    with Cons[of r] step show ?thesis by auto
  next
    case False
    with Cons[of q] step show ?thesis by auto
  qed
qed

lemma oldest_le: "x \<in> set (q # qs) \<Longrightarrow> run_created_at (oldest q qs) \<le> run_created_at x"
proof -
  have mono: "run_created_at (oldest q qs) \<le> run_created_at q" for q qs
    unfolding oldest_def
  proof (induction qs arbitrary: q)
    case Nil
    show ?case by simp
  next
    case (Cons r qs)
    show ?case
      using Cons[of r] Cons[of q] by (simp split: if_splits)
  qed
  show "x \<in> set (q # qs) \<Longrightarrow> run_created_at (oldest q qs) \<le> run_created_at x"
  proof (induction qs arbitrary: q)
    case Nil
    then show ?case by (simp add: oldest_def)
  next
    case (Cons r qs)
    let ?b = "if run_created_at r < run_created_at q then r else q"
    have step: "oldest q (r # qs) = oldest ?b qs" by (simp add: oldest_def)
    have b: "run_created_at ?b \<le> run_created_at q" "run_created_at ?b \<le> run_created_at r"
      by auto
    from Cons.prems consider "x = q" | "x = r" | "x \<in> set qs" by auto
    then show ?case
    proof cases
      case 1
      from order_trans[OF mono[of ?b qs] b(1)] 1 show ?thesis unfolding step by blast
    next
      case 2
      from order_trans[OF mono[of ?b qs] b(2)] 2 show ?thesis unfolding step by blast
    next
      case 3
      then have "x \<in> set (?b # qs)" by simp
      from Cons.IH[OF this] show ?thesis unfolding step .
    qed
  qed
qed

lemma select_candidate_Some:
  assumes "select_candidate runs = Some c"
  shows "\<exists>q \<in> set runs. run_id q = c \<and> state q = QUEUED \<and> c \<noteq> [] \<and>
           (\<forall>q' \<in> set runs. state q' = QUEUED \<longrightarrow> run_created_at q \<le> run_created_at q')"
proof (cases "filter (\<lambda>r. state r = QUEUED) runs")
  case Nil
  with assms show ?thesis by (simp add: select_candidate_def)
next
  case (Cons q qs)
  have c: "c = run_id (oldest q qs)" "c \<noteq> []"
    using assms Cons by (auto simp: select_candidate_def Let_def split: if_splits)
  have "oldest q qs \<in> set (filter (\<lambda>r. state r = QUEUED) runs)"
    using oldest_in[of q qs] Cons by simp
  then have mem: "oldest q qs \<in> set runs" "state (oldest q qs) = QUEUED" by auto
  have "run_created_at (oldest q qs) \<le> run_created_at q'" if "q' \<in> set runs" "state q' = QUEUED" for q'
  proof -
    from that have "q' \<in> set (filter (\<lambda>r. state r = QUEUED) runs)" by simp
    then have "q' \<in> set (q # qs)" using Cons by simp
    then show ?thesis by (rule oldest_le)
  qed
  with mem c show ?thesis by blast
qed

lemma select_candidate_queued: "select_candidate runs = Some c \<Longrightarrow> is_queued runs c"
  using select_candidate_Some[of runs c] by (auto simp: is_queued_def claim_matches_def)

lemma select_candidate_exists:
  assumes "q \<in> set runs" "state q = QUEUED" "\<forall>r \<in> set runs. run_id r \<noteq> []"
  shows "\<exists>c. select_candidate runs = Some c"
proof (cases "filter (\<lambda>r. state r = QUEUED) runs")
  case Nil
  with assms show ?thesis by (auto simp: filter_empty_conv)
next
  case (Cons x xs)
  have "oldest x xs \<in> set (filter (\<lambda>r. state r = QUEUED) runs)"
    using oldest_in[of x xs] Cons by simp
  then have "run_id (oldest x xs) \<noteq> []" using assms(3) by auto
  with Cons show ?thesis by (simp add: select_candidate_def Let_def)
qed

lemma preflight_transitions_append:
  "preflight_transitions (events @ [\<lparr>ev_run_id = c, from_state = Some QUEUED, to_state = PREFLIGHT,
        ev_message = m, details_error = d\<rparr>]) c'
   = preflight_transitions events c' + (if c' = c then 1 else 0)"
  by (auto simp: preflight_transitions_def)

lemma claim_inv_swap: "claim_inv ev0 (a, b, db) = claim_inv ev0 (b, a, db)"
  by (cases db) (auto simp: claim_inv_def)

lemma step_first:
  assumes inv: "claim_inv ev0 (a, b, (runs, evs))"
    and step: "worker_step a (runs, evs) = (a', (runs', evs'))"
  shows "claim_inv ev0 (a', b, (runs', evs'))"
proof (cases a)
  case Idle
  show ?thesis
  proof (cases "select_candidate runs")
    case None
    with Idle step have eq: "a' = Returned None None" "runs' = runs" "evs' = evs" by auto
    have "worker_ok runs b a' = worker_ok runs b a"
      by (rule worker_ok_cong_other) (simp add: eq Idle)
    with inv show ?thesis by (simp add: claim_inv_def eq Idle)
  next
    case (Some c)
    with Idle step have eq: "a' = Selected c" "runs' = runs" "evs' = evs" by auto
    have "worker_ok runs b a' = worker_ok runs b a"
      by (rule worker_ok_cong_other) (simp add: eq Idle)
    with inv select_candidate_queued[OF Some] show ?thesis by (simp add: claim_inv_def eq Idle)
  qed
next
  case (Selected c)
  from inv have dist: "distinct (map run_id runs)" by (simp add: claim_inv_def)
  from inv have oka: "is_queued runs c \<or> won b c" and okb: "worker_ok runs b a"
    and cnt: "\<And>x. preflight_transitions evs x =
               preflight_transitions ev0 x + (if won b x then 1 else 0)"
    by (simp_all add: claim_inv_def Selected)
  show ?thesis
  proof (cases "is_queued runs c")
    case False
    from claim_update_lost[OF dist False, of evs] Selected step
    have eq: "a' = Returned (Some c) None" "runs' = runs" "evs' = evs" by auto
    have "worker_ok runs b a' = worker_ok runs b a"
      by (rule worker_ok_cong_other) (simp add: eq Selected)
    with okb oka False dist cnt show ?thesis by (simp add: claim_inv_def eq)
  next
    case True
    from claim_update_won[OF dist True, of evs] Selected step
    obtain r where eq: "a' = Returned (Some c) (Some r)" "runs' = claimed_runs c runs"
      "evs' = evs @ [\<lparr>ev_run_id = c, from_state = Some QUEUED, to_state = PREFLIGHT,
                ev_message = Some ''Picked by worker'', details_error = None\<rparr>]"
      and r: "run_id r = c" "state r = PREFLIGHT"
      and st: "state_of (claimed_runs c runs) c = Some PREFLIGHT"
      by auto
    have nb: "\<not> won b c"
    proof
      assume "won b c"
      then obtain r' where "b = Returned (Some c) (Some r')"
        by (auto simp: won_def split: worker.splits option.splits)
      with okb True show False by simp
    qed
    have okb': "worker_ok (claimed_runs c runs) b a'"
    proof (cases b)
      case Idle
      then show ?thesis by simp
    next
      case (Selected c')
      with okb \<open>a = Selected c\<close> show ?thesis
        by (cases "c' = c") (simp_all add: eq is_queued_claimed_runs)
    next
      case (Returned co ro)
      show ?thesis
      proof (cases co)
        case None
        with Returned okb show ?thesis by simp
      next
        case (Some c')
        show ?thesis
        proof (cases ro)
          case None
          with Some Returned okb \<open>a = Selected c\<close> show ?thesis by simp
        next
          case (Some r')
          with \<open>co = Some c'\<close> Returned okb True have ne: "c' \<noteq> c" by auto
          with Some \<open>co = Some c'\<close> Returned okb show ?thesis
            by (simp add: eq is_queued_claimed_runs state_of_claimed_other)
        qed
      qed
    qed
    have oka': "worker_ok (claimed_runs c runs) a' b"
      using nb r st by (simp add: eq is_queued_claimed_runs)
    have cnt': "preflight_transitions evs' x =
               preflight_transitions ev0 x + (if won a' x then 1 else 0) + (if won b x then 1 else 0)" for x
      by (simp add: eq preflight_transitions_append cnt)
    from dist oka' okb' cnt' show ?thesis
      by (simp add: claim_inv_def eq(2) claimed_runs_ids)
  qed
next
  case (Returned co ro)
  with step have "a' = a" "runs' = runs" "evs' = evs" by auto
  with inv show ?thesis by simp
qed

lemma step_second:
  assumes "claim_inv ev0 (a, b, (runs, evs))"
    and "worker_step b (runs, evs) = (b', (runs', evs'))"
  shows "claim_inv ev0 (a, b', (runs', evs'))"
  using step_first[of ev0 b a runs evs b' runs' evs'] assms
  by (simp add: claim_inv_swap)

lemma run_schedule_inv:
  "claim_inv ev0 cfg \<Longrightarrow> claim_inv ev0 (run_schedule sched cfg)"
proof (induction sched arbitrary: cfg)
  case Nil
  then show ?case by simp
next
  case (Cons w ws)
  obtain a b runs evs where cfg: "cfg = (a, b, (runs, evs))" by (cases cfg) auto
  show ?case
  proof (cases w)
    case True
    obtain b' runs' evs' where st: "worker_step b (runs, evs) = (b', (runs', evs'))"
      by (cases "worker_step b (runs, evs)") auto
    from step_second[OF Cons.prems[unfolded cfg] st] Cons.IH st True cfg
    show ?thesis by simp
  next
    case False
    obtain a' runs' evs' where st: "worker_step a (runs, evs) = (a', (runs', evs'))"
      by (cases "worker_step a (runs, evs)") auto
    from step_first[OF Cons.prems[unfolded cfg] st] Cons.IH st False cfg
    show ?thesis by simp
  qed
qed

lemma claim_inv_initial:
  "distinct (map run_id runs) \<Longrightarrow> claim_inv events (Idle, Idle, (runs, events))"
  by (simp add: claim_inv_def)

lemma claim_sequential:
  assumes dist: "distinct (map run_id runs)" and ids: "\<forall>r \<in> set runs. run_id r \<noteq> []"
    and q: "q \<in> set runs" "state q = QUEUED"
  shows "\<exists>run runs' events'.
           claim_next_queued_run (runs, events) = ((runs', events'), Some run) \<and>
           state run = PREFLIGHT \<and> state_of runs' (run_id run) = Some PREFLIGHT \<and>
           (\<exists>old \<in> set runs. run_id old = run_id run \<and> state old = QUEUED \<and>
              (\<forall>q' \<in> set runs. state q' = QUEUED \<longrightarrow> run_created_at old \<le> run_created_at q'))"
proof -
  obtain c where c: "select_candidate runs = Some c"
    using select_candidate_exists[OF q ids] by blast
  from select_candidate_Some[OF c] obtain old where old: "old \<in> set runs" "run_id old = c"
    "state old = QUEUED" "\<forall>q' \<in> set runs. state q' = QUEUED \<longrightarrow> run_created_at old \<le> run_created_at q'"
    by blast
  from claim_update_won[OF dist select_candidate_queued[OF c], of events]
  obtain r where r: "claim_update c (runs, events) =
           ((claimed_runs c runs, events @
              [\<lparr>ev_run_id = c, from_state = Some QUEUED, to_state = PREFLIGHT,
                ev_message = Some ''Picked by worker'', details_error = None\<rparr>]), Some r)"
     "run_id r = c" "state r = PREFLIGHT" "state_of (claimed_runs c runs) c = Some PREFLIGHT"
    by blast
  have "claim_next_queued_run (runs, events) = claim_update c (runs, events)"
    by (simp add: claim_next_queued_run_def c)
  with r old show ?thesis by auto
qed

lemma claim_concurrent:
  assumes dist: "distinct (map run_id runs)"
    and run: "run_schedule sched (Idle, Idle, (runs, events))
                = (Returned (Some c) r1, Returned (Some c) r2, (runs', events'))"
  shows "(r1 = None) \<noteq> (r2 = None) \<and> state_of runs' c = Some PREFLIGHT \<and>
         preflight_transitions events' c = preflight_transitions events c + 1"
proof -
  have inv: "claim_inv events (Returned (Some c) r1, Returned (Some c) r2, (runs', events'))"
    using run_schedule_inv[OF claim_inv_initial[OF dist], of events sched] run by simp
  show ?thesis
  proof (cases r1)
    case None
    with inv obtain w where "r2 = Some w" by (cases r2) (auto simp: claim_inv_def)
    with None inv show ?thesis by (auto simp: claim_inv_def)
  next
    case (Some w)
    with inv have "r2 = None" by (cases r2) (auto simp: claim_inv_def)
    with Some inv show ?thesis by (auto simp: claim_inv_def)
  qed
qed

text \<open>
  Claim C1. Run ids are distinct, non-empty primary keys. Then: (1) whenever some run is
  QUEUED, \<open>_claim_next_queued_run\<close> returns a run, now in PREFLIGHT, that was a QUEUED
  run of least creation time; (2) the UPDATE claims nothing, changes nothing and returns
  None when the candidate is no longer QUEUED; (3) when two workers run the claim
  concurrently, their statements interleaved in any order, and both selected the same
  run, exactly one of them returns the run and the other returns None, the run is in
  PREFLIGHT, and exactly one QUEUED-to-PREFLIGHT transition was recorded for it.
\<close>

theorem claim_next_queued_run_single_winner:
  assumes "distinct (map run_id runs)" and "\<forall>r \<in> set runs. run_id r \<noteq> []"
  shows "(\<forall>q \<in> set runs. state q = QUEUED \<longrightarrow>
           (\<exists>run runs' events'.
              claim_next_queued_run (runs, events) = ((runs', events'), Some run) \<and>
              state run = PREFLIGHT \<and> state_of runs' (run_id run) = Some PREFLIGHT \<and>
              (\<exists>old \<in> set runs. run_id old = run_id run \<and> state old = QUEUED \<and>
                 (\<forall>q' \<in> set runs. state q' = QUEUED \<longrightarrow> run_created_at old \<le> run_created_at q'))))
       \<and> (\<forall>c. \<not> is_queued runs c \<longrightarrow> claim_update c (runs, events) = ((runs, events), None))
       \<and> (\<forall>sched c r1 r2 runs' events'.
            run_schedule sched (Idle, Idle, (runs, events))
              = (Returned (Some c) r1, Returned (Some c) r2, (runs', events')) \<longrightarrow>
            (r1 = None) \<noteq> (r2 = None) \<and> state_of runs' c = Some PREFLIGHT \<and>
            preflight_transitions events' c = preflight_transitions events c + 1)"
  using claim_sequential[OF assms] claim_update_lost[OF assms(1)] claim_concurrent[OF assms(1)]
  by blast

lemma example_schedule_run:
  "run_schedule [False, True, True, False]
     (Idle, Idle, ([example_run ''run-a'' 5 QUEUED, example_run ''run-b'' 3 QUEUED], []))
   = (Returned (Some ''run-b'') None,
      Returned (Some ''run-b'') (Some ((example_run ''run-b'' 3 QUEUED)
          \<lparr>state := PREFLIGHT, state_message := Some ''Picked by worker''\<rparr>)),
      ([example_run ''run-a'' 5 QUEUED,
        (example_run ''run-b'' 3 QUEUED)\<lparr>state := PREFLIGHT, state_message := Some ''Picked by worker''\<rparr>],
       [\<lparr>ev_run_id = ''run-b'', from_state = Some QUEUED, to_state = PREFLIGHT,
                ev_message = Some ''Picked by worker'', details_error = None\<rparr>]))"
  by (simp add: example_run_def select_candidate_def oldest_def claim_update_def claim_matches_def
      get_run_def Let_def)

theorem claim_next_queued_run_single_winner_witness:
  "distinct (map run_id [example_run ''run-a'' 5 QUEUED, example_run ''run-b'' 3 QUEUED]) \<and>
   run_id (example_run ''run-a'' 5 QUEUED) \<noteq> [] \<and>
   run_id (example_run ''run-b'' 3 QUEUED) \<noteq> [] \<and>
   state (example_run ''run-a'' 5 QUEUED) = QUEUED \<and>
   (\<exists>run db'. claim_next_queued_run
        ([example_run ''run-a'' 5 QUEUED, example_run ''run-b'' 3 QUEUED], []) = (db', Some run) \<and>
      state run = PREFLIGHT) \<and>
   fst (run_schedule [False, True, True, False]
     (Idle, Idle, ([example_run ''run-a'' 5 QUEUED, example_run ''run-b'' 3 QUEUED], [])))
     = Returned (Some ''run-b'') None \<and>
   preflight_transitions
     [\<lparr>ev_run_id = ''run-b'', from_state = Some QUEUED, to_state = PREFLIGHT,
       ev_message = Some ''Picked by worker'', details_error = None\<rparr>] ''run-b''
     = preflight_transitions [] ''run-b'' + 1"
proof -
  let ?runs = "[example_run ''run-a'' 5 QUEUED, example_run ''run-b'' 3 QUEUED]"
  have d: "distinct (map run_id ?runs)" and i: "\<forall>r \<in> set ?runs. run_id r \<noteq> []"
    and q: "example_run ''run-a'' 5 QUEUED \<in> set ?runs" "state (example_run ''run-a'' 5 QUEUED) = QUEUED"
    by (simp_all add: example_run_def)
  note concl = claim_next_queued_run_single_winner[OF d i, of "[]"]
  from concl q have one: "\<exists>run db'. claim_next_queued_run (?runs, []) = (db', Some run) \<and> state run = PREFLIGHT"
    by blast
  from concl example_schedule_run
  have two: "preflight_transitions
     [\<lparr>ev_run_id = ''run-b'', from_state = Some QUEUED, to_state = PREFLIGHT,
       ev_message = Some ''Picked by worker'', details_error = None\<rparr>] ''run-b''
     = preflight_transitions [] ''run-b'' + 1"
    by blast
  from d i q one two example_schedule_run show ?thesis by simp
qed

subsection \<open>Dataset builder\<close>

lemma place_row_train:
  "train_rows (place_row sha acc x) =
     train_rows acc @ (if bucket_of sha x = Train then [item_of x] else [])"
  by (cases "bucket_of sha x") (simp_all add: place_row_def Let_def bucket_of_def item_of_def)

lemma place_row_val:
  "val_rows (place_row sha acc x) =
     val_rows acc @ (if bucket_of sha x = Val then [item_of x] else [])"
  by (cases "bucket_of sha x") (simp_all add: place_row_def Let_def bucket_of_def item_of_def)

lemma place_row_test:
  "test_rows (place_row sha acc x) =
     test_rows acc @ (if bucket_of sha x = Test then [item_of x] else [])"
  by (cases "bucket_of sha x") (simp_all add: place_row_def Let_def bucket_of_def item_of_def)

lemma place_row_gold:
  "gold_rows (place_row sha acc x) =
     gold_rows acc @ (if snd x \<ge> 80 \<and> bucket_of sha x \<in> {Val, Test} then [item_of x] else [])"
  by (cases "bucket_of sha x") (simp_all add: place_row_def Let_def bucket_of_def item_of_def)

lemma place_row_review:
  "review_rows (place_row sha acc x) =
     review_rows acc @ (if snd x < 70 then [item_of x] else [])"
  by (cases "bucket_of sha x") (simp_all add: place_row_def Let_def bucket_of_def item_of_def)

lemma foldl_place_row_train:
  "train_rows (foldl (place_row sha) acc xs) =
     train_rows acc @ map item_of (filter (\<lambda>x. bucket_of sha x = Train) xs)"
  by (induction xs arbitrary: acc) (simp_all add: place_row_train)

lemma foldl_place_row_val:
  "val_rows (foldl (place_row sha) acc xs) =
     val_rows acc @ map item_of (filter (\<lambda>x. bucket_of sha x = Val) xs)"
  by (induction xs arbitrary: acc) (simp_all add: place_row_val)

lemma foldl_place_row_test:
  "test_rows (foldl (place_row sha) acc xs) =
     test_rows acc @ map item_of (filter (\<lambda>x. bucket_of sha x = Test) xs)"
  by (induction xs arbitrary: acc) (simp_all add: place_row_test)

lemma foldl_place_row_gold:
  "gold_rows (foldl (place_row sha) acc xs) =
     gold_rows acc @ map item_of (filter (\<lambda>x. snd x \<ge> 80 \<and> bucket_of sha x \<in> {Val, Test}) xs)"
  by (induction xs arbitrary: acc) (simp_all add: place_row_gold)

lemma foldl_place_row_review:
  "review_rows (foldl (place_row sha) acc xs) =
     review_rows acc @ map item_of (filter (\<lambda>x. snd x < 70) xs)"
  by (induction xs arbitrary: acc) (simp_all add: place_row_review)

lemma split_rows_train:
  "train_rows (split_rows sha xs) = map item_of (filter (\<lambda>x. bucket_of sha x = Train) xs)"
  by (simp add: split_rows_def foldl_place_row_train empty_rows_def)

lemma split_rows_val:
  "val_rows (split_rows sha xs) = map item_of (filter (\<lambda>x. bucket_of sha x = Val) xs)"
  by (simp add: split_rows_def foldl_place_row_val empty_rows_def)

lemma split_rows_test:
  "test_rows (split_rows sha xs) = map item_of (filter (\<lambda>x. bucket_of sha x = Test) xs)"
  by (simp add: split_rows_def foldl_place_row_test empty_rows_def)

lemma split_rows_gold: "gold_rows (split_rows sha xs) = hashed_gold sha xs"
  by (simp add: split_rows_def foldl_place_row_gold empty_rows_def hashed_gold_def)

lemma split_rows_review:
  "review_rows (split_rows sha xs) = map item_of (filter (\<lambda>x. snd x < 70) xs)"
  by (simp add: split_rows_def foldl_place_row_review empty_rows_def)

lemma keep_nonempty_other [simp]:
  "gold_rows (keep_val_nonempty acc) = gold_rows acc"
  "review_rows (keep_val_nonempty acc) = review_rows acc"
  "test_rows (keep_val_nonempty acc) = test_rows acc"
  "gold_rows (keep_test_nonempty acc) = gold_rows acc"
  "review_rows (keep_test_nonempty acc) = review_rows acc"
  "val_rows (keep_test_nonempty acc) = val_rows acc"
  by (simp_all add: keep_val_nonempty_def keep_test_nonempty_def)

lemma gold_fallback_other [simp]:
  "train_rows (gold_fallback acc) = train_rows acc"
  "val_rows (gold_fallback acc) = val_rows acc"
  "test_rows (gold_fallback acc) = test_rows acc"
  "review_rows (gold_fallback acc) = review_rows acc"
  by (simp_all add: gold_fallback_def Let_def)



lemma finalize_files:
  "train_file (finalize sha dataset examples) =
     train_rows (keep_test_nonempty (keep_val_nonempty (split_rows sha (scored_examples examples))))"
  "val_file (finalize sha dataset examples) =
     val_rows (keep_val_nonempty (split_rows sha (scored_examples examples)))"
  "test_file (finalize sha dataset examples) =
     test_rows (keep_test_nonempty (keep_val_nonempty (split_rows sha (scored_examples examples))))"
  "gold_file (finalize sha dataset examples) =
     gold_rows (gold_fallback (keep_test_nonempty (keep_val_nonempty
        (split_rows sha (scored_examples examples)))))"
  "review_file (finalize sha dataset examples) =
     review_rows (split_rows sha (scored_examples examples))"
  "ds_status (finalize sha dataset examples) =
     (if review_rows (split_rows sha (scored_examples examples)) \<noteq> []
      then DS_NEEDS_REVIEW else DS_READY)"
  by (simp_all add: finalize_def Let_def scored_examples_def)

lemma build_dataset_Inr:
  assumes "build_dataset sha store documents datasets new_id tenant_id project_id name document_ids
             = (datasets', Inr ds)"
  shows "\<exists>examples.
           collect_examples store (eligible_documents documents tenant_id project_id document_ids)
             = Inr examples \<and> examples \<noteq> [] \<and>
           ds = finalize sha (building new_id tenant_id project_id name
                  (eligible_documents documents tenant_id project_id document_ids)) examples"
proof -
  let ?docs = "eligible_documents documents tenant_id project_id document_ids"
  have ne: "?docs \<noteq> []"
    using assms by (auto simp: build_dataset_def)
  show ?thesis
  proof (cases "collect_examples store ?docs")
    case (Inl e)
    with assms ne show ?thesis by (simp add: build_dataset_def)
  next
    case (Inr examples)
    with assms ne have "examples \<noteq> []"
      by (auto simp: build_dataset_def)
    with assms ne Inr show ?thesis
      by (simp add: build_dataset_def Let_def)
  qed
qed

lemma examples_from_document_nonempty: "examples_from_document doc pl \<noteq> []"
  by (simp add: examples_from_document_def Let_def)

lemma examples_from_document_last:
  "last (examples_from_document doc pl) = refusal_example doc"
  by (simp add: examples_from_document_def Let_def)

lemma collect_examples_length:
  "collect_examples store docs = Inr examples \<Longrightarrow> length docs \<le> length examples"
proof (induction docs arbitrary: examples)
  case Nil
  then show ?case by simp
next
  case (Cons doc docs)
  from Cons.prems obtain pl rest where
    pl: "store (normalized_text_path doc) = Some pl" and
    rest: "collect_examples store docs = Inr rest" and
    ex: "examples = examples_from_document (d_id doc) pl @ rest"
    by (auto split: option.splits sum.splits)
  have "1 \<le> length (examples_from_document (d_id doc) pl)"
    using examples_from_document_nonempty[of "d_id doc" pl]
    by (cases "examples_from_document (d_id doc) pl") auto
  with Cons.IH[OF rest] ex show ?case by simp
qed

lemma collect_examples_Inl:
  "collect_examples store docs = Inl e \<Longrightarrow> e = Payload_unreadable"
  by (induction docs arbitrary: e) (auto split: option.splits sum.splits)

lemma build_never_without_examples:
  "snd (build_dataset sha store documents datasets new_id tenant_id project_id name document_ids)
     \<noteq> Inl No_examples_generated"
proof -
  let ?docs = "eligible_documents documents tenant_id project_id document_ids"
  show ?thesis
  proof (cases "?docs = []")
    case True
    then show ?thesis by (simp add: build_dataset_def)
  next
    case False
    show ?thesis
    proof (cases "collect_examples store ?docs")
      case (Inl e)
      with collect_examples_Inl[OF Inl] False show ?thesis
        by (simp add: build_dataset_def)
    next
      case (Inr examples)
      from collect_examples_length[OF Inr] False have "examples \<noteq> []"
        by (cases ?docs) auto
      with Inr False show ?thesis
        by (simp add: build_dataset_def Let_def)
    qed
  qed
qed

text \<open>
  Claim C10. Example synthesis yields at least one example for every document: the list
  for a document is never empty and always ends with the fixed refusal example, so the
  examples collected from a list of documents are at least as many as the documents.
  Hence \<open>build_dataset\<close> never takes its zero-examples branch: whatever the inputs, it
  does not fail with "no examples".
\<close>

theorem refusal_example_always_synthesized:
  "examples_from_document doc pl \<noteq> [] \<and>
   last (examples_from_document doc pl) = refusal_example doc \<and>
   (\<forall>examples. collect_examples store docs = Inr examples \<longrightarrow> length docs \<le> length examples) \<and>
   snd (build_dataset sha store documents datasets new_id tenant_id project_id name document_ids)
     \<noteq> Inl No_examples_generated"
  using examples_from_document_nonempty examples_from_document_last collect_examples_length
    build_never_without_examples
  by blast

lemma faithfulness_ge: "75 \<le> faithfulness row"
  by (simp add: faithfulness_def)

lemma specificity_ge: "50 \<le> specificity row"
  by (simp add: specificity_def)

lemma actionability_ge: "70 \<le> actionability row"
  by (simp add: actionability_def)

lemma safety_ge: "90 \<le> safety row"
  by (simp add: safety_def)

lemma score_example_ge: "76 \<le> score_example row"
proof -
  have "380 \<le> faithfulness row + specificity row + actionability row + format_compliance + safety row"
    using faithfulness_ge[of row] specificity_ge[of row] actionability_ge[of row] safety_ge[of row]
    by (simp add: format_compliance_def)
  then show ?thesis unfolding score_example_def by linarith
qed

lemma scored_examples_snd:
  "x \<in> set (scored_examples examples) \<Longrightarrow> snd x = score_example (fst x)"
  by (auto simp: scored_examples_def in_set_zip)

lemma no_review_rows: "review_rows (split_rows sha (scored_examples examples)) = []"
proof -
  have "\<not> snd x < 70" if "x \<in> set (scored_examples examples)" for x
    using scored_examples_snd[OF that] score_example_ge[of "fst x"] by simp
  then show ?thesis by (simp add: split_rows_review filter_empty_conv)
qed

text \<open>
  Claim C9. The score of an example is at least 76, above the review threshold of 70;
  therefore every successfully built dataset has an empty review file and status READY.
\<close>

theorem built_dataset_never_needs_review:
  "76 \<le> score_example row \<and>
   (build_dataset sha store documents datasets new_id tenant_id project_id name document_ids
      = (datasets', Inr ds) \<longrightarrow> review_file ds = [] \<and> ds_status ds = DS_READY)"
  using score_example_ge[of row] build_dataset_Inr[of sha store documents datasets new_id tenant_id
      project_id name document_ids datasets' ds]
  by (auto simp: finalize_files no_review_rows)

lemma keep_val_nonempty_moves:
  "val_rows acc = [] \<and> train_rows acc \<noteq> [] \<Longrightarrow>
     val_rows (keep_val_nonempty acc) = [hd (train_rows acc)] \<and>
     train_rows (keep_val_nonempty acc) = tl (train_rows acc)"
  "\<not> (val_rows acc = [] \<and> train_rows acc \<noteq> []) \<Longrightarrow> keep_val_nonempty acc = acc"
  by (simp_all add: keep_val_nonempty_def)

lemma keep_test_nonempty_moves:
  "test_rows acc = [] \<and> train_rows acc \<noteq> [] \<Longrightarrow>
     test_rows (keep_test_nonempty acc) = [hd (train_rows acc)] \<and>
     train_rows (keep_test_nonempty acc) = tl (train_rows acc)"
  "\<not> (test_rows acc = [] \<and> train_rows acc \<noteq> []) \<Longrightarrow> keep_test_nonempty acc = acc"
  by (simp_all add: keep_test_nonempty_def)

lemma all_train_split:
  assumes "\<forall>x \<in> set xs. bucket_of sha x = Train"
  shows "train_rows (split_rows sha xs) = map item_of xs"
    and "val_rows (split_rows sha xs) = []"
    and "test_rows (split_rows sha xs) = []"
  using assms by (simp_all add: split_rows_train split_rows_val split_rows_test filter_empty_conv)

lemma all_train_slices:
  assumes all: "\<forall>x \<in> set xs. bucket_of sha x = Train" and len: "3 \<le> length xs"
  shows "val_rows (keep_val_nonempty (split_rows sha xs)) = [item_of (xs ! 0)]"
    and "test_rows (keep_test_nonempty (keep_val_nonempty (split_rows sha xs))) = [item_of (xs ! 1)]"
    and "train_rows (keep_test_nonempty (keep_val_nonempty (split_rows sha xs)))
           = map item_of (drop 2 xs)"
proof -
  from len obtain a b c rest where xs: "xs = a # b # c # rest"
    by (cases xs; cases "tl xs"; cases "tl (tl xs)") auto
  note s = all_train_split[OF all]
  have ne: "map item_of xs \<noteq> []" by (simp add: xs)
  have v1: "val_rows (keep_val_nonempty (split_rows sha xs)) = [hd (map item_of xs)]"
    using ne by (simp add: keep_val_nonempty_def s)
  then show "val_rows (keep_val_nonempty (split_rows sha xs)) = [item_of (xs ! 0)]"
    by (simp add: xs)
  have t1: "train_rows (keep_val_nonempty (split_rows sha xs)) = tl (map item_of xs)"
    using ne by (simp add: keep_val_nonempty_def s)
  have e1: "test_rows (keep_val_nonempty (split_rows sha xs)) = []"
    by (simp add: s)
  have t1': "tl (map item_of xs) = map item_of (b # c # rest)" by (simp add: xs)
  have "test_rows (keep_test_nonempty (keep_val_nonempty (split_rows sha xs))) = [item_of b]"
    by (simp add: keep_test_nonempty_def t1 s t1')
  then show "test_rows (keep_test_nonempty (keep_val_nonempty (split_rows sha xs))) = [item_of (xs ! 1)]"
    by (simp add: xs)
  have "train_rows (keep_test_nonempty (keep_val_nonempty (split_rows sha xs)))
           = map item_of (c # rest)"
    by (simp add: keep_test_nonempty_def t1 s t1')
  then show "train_rows (keep_test_nonempty (keep_val_nonempty (split_rows sha xs)))
           = map item_of (drop 2 xs)"
    by (simp add: xs)
qed

text \<open>
  Claim C6. In a successful build, let \<open>acc0\<close> be the rows as the hash buckets split
  them. If the validation rows are empty and the training rows are not, exactly the first
  training row moves to validation (otherwise nothing changes); the same rule is then
  applied for the test rows; the files of the dataset are the result. Consequently, when
  every example hashes to the training bucket and there are at least three examples, the
  validation file is the first example's row, the test file the second's, the training
  file the rest, and none of the three is empty.
\<close>

theorem slices_kept_nonempty:
  assumes "build_dataset sha store documents datasets new_id tenant_id project_id name document_ids
             = (datasets', Inr ds)"
  shows "\<exists>examples.
     collect_examples store (eligible_documents documents tenant_id project_id document_ids)
       = Inr examples \<and>
     (let acc0 = split_rows sha (scored_examples examples);
          acc1 = keep_val_nonempty acc0;
          acc2 = keep_test_nonempty acc1
      in train_file ds = train_rows acc2 \<and> val_file ds = val_rows acc1 \<and>
         test_file ds = test_rows acc2 \<and>
         (val_rows acc0 = [] \<and> train_rows acc0 \<noteq> [] \<longrightarrow>
            val_rows acc1 = [hd (train_rows acc0)] \<and> train_rows acc1 = tl (train_rows acc0)) \<and>
         (\<not> (val_rows acc0 = [] \<and> train_rows acc0 \<noteq> []) \<longrightarrow> acc1 = acc0) \<and>
         (test_rows acc1 = [] \<and> train_rows acc1 \<noteq> [] \<longrightarrow>
            test_rows acc2 = [hd (train_rows acc1)] \<and> train_rows acc2 = tl (train_rows acc1)) \<and>
         (\<not> (test_rows acc1 = [] \<and> train_rows acc1 \<noteq> []) \<longrightarrow> acc2 = acc1) \<and>
         ((\<forall>x \<in> set (scored_examples examples). bucket_of sha x = Train) \<and> 3 \<le> length examples \<longrightarrow>
            train_file ds \<noteq> [] \<and> val_file ds \<noteq> [] \<and> test_file ds \<noteq> [] \<and>
            val_file ds = [item_of (scored_examples examples ! 0)] \<and>
            test_file ds = [item_of (scored_examples examples ! 1)] \<and>
            train_file ds = map item_of (drop 2 (scored_examples examples))))"
proof -
  from build_dataset_Inr[OF assms] obtain examples where
    ex: "collect_examples store (eligible_documents documents tenant_id project_id document_ids)
           = Inr examples"
    and ds: "ds = finalize sha (building new_id tenant_id project_id name
                  (eligible_documents documents tenant_id project_id document_ids)) examples"
    by blast
  have len: "length (scored_examples examples) = length examples"
    by (simp add: scored_examples_def)
  have train: "(\<forall>x \<in> set (scored_examples examples). bucket_of sha x = Train) \<and> 3 \<le> length examples \<longrightarrow>
            train_file ds \<noteq> [] \<and> val_file ds \<noteq> [] \<and> test_file ds \<noteq> [] \<and>
            val_file ds = [item_of (scored_examples examples ! 0)] \<and>
            test_file ds = [item_of (scored_examples examples ! 1)] \<and>
            train_file ds = map item_of (drop 2 (scored_examples examples))"
  proof
    assume a: "(\<forall>x \<in> set (scored_examples examples). bucket_of sha x = Train) \<and> 3 \<le> length examples"
    then have all: "\<forall>x \<in> set (scored_examples examples). bucket_of sha x = Train"
      and l3: "3 \<le> length (scored_examples examples)" by (simp_all add: len)
    note sl = all_train_slices[OF all l3]
    have "drop 2 (scored_examples examples) \<noteq> []" using l3 by simp
    with sl show "train_file ds \<noteq> [] \<and> val_file ds \<noteq> [] \<and> test_file ds \<noteq> [] \<and>
            val_file ds = [item_of (scored_examples examples ! 0)] \<and>
            test_file ds = [item_of (scored_examples examples ! 1)] \<and>
            train_file ds = map item_of (drop 2 (scored_examples examples))"
      by (simp add: ds finalize_files)
  qed
  show ?thesis
    apply (rule exI[of _ examples])
    apply (simp only: Let_def)
    apply (intro conjI)
            apply (rule ex)
           apply (simp add: ds finalize_files)
          apply (simp add: ds finalize_files)
         apply (simp add: ds finalize_files)
        apply (simp add: keep_val_nonempty_def)
       apply (simp add: keep_val_nonempty_def)
      apply (simp add: keep_test_nonempty_def)
     apply (simp add: keep_test_nonempty_def)
    apply (rule train)
    done
qed

lemma capped_candidates:
  "length (take (max 1 (min 10 (length c))) c) \<le> 10"
  "c \<noteq> [] \<Longrightarrow> take (max 1 (min 10 (length c))) c \<noteq> []"
  by (cases c; simp)+

text \<open>
  Claim C8, as amended. In a successful build the gold file holds the rows of the
  examples that score at least 80 and whose document hashes to the validation or the test
  bucket, that is, the validation and test rows as they are before the rebalancing that
  keeps the slices non-empty. Only when there are none does it hold instead the first rows
  scoring at least 75 of the final validation, test and training files, taken in that
  order: at most 10 of them, and at least one when any exists.
\<close>

theorem gold_rows_chosen_before_rebalancing:
  assumes "build_dataset sha store documents datasets new_id tenant_id project_id name document_ids
             = (datasets', Inr ds)"
  shows "\<exists>examples.
     collect_examples store (eligible_documents documents tenant_id project_id document_ids)
       = Inr examples \<and>
     (let hashed = hashed_gold sha (scored_examples examples);
          candidates = filter (\<lambda>row. 75 \<le> example_score row)
                         (val_file ds @ test_file ds @ train_file ds)
      in gold_file ds =
           (if hashed = [] then take (max 1 (min 10 (length candidates))) candidates else hashed) \<and>
         (hashed = [] \<longrightarrow> length (gold_file ds) \<le> 10 \<and> (candidates \<noteq> [] \<longrightarrow> gold_file ds \<noteq> [])))"
proof -
  from build_dataset_Inr[OF assms] obtain examples where
    ex: "collect_examples store (eligible_documents documents tenant_id project_id document_ids)
           = Inr examples"
    and ds: "ds = finalize sha (building new_id tenant_id project_id name
                  (eligible_documents documents tenant_id project_id document_ids)) examples"
    by blast
  let ?acc = "keep_test_nonempty (keep_val_nonempty (split_rows sha (scored_examples examples)))"
  let ?hashed = "hashed_gold sha (scored_examples examples)"
  let ?cand = "filter (\<lambda>row. 75 \<le> example_score row) (val_file ds @ test_file ds @ train_file ds)"
  have g: "gold_rows ?acc = ?hashed" by (simp add: split_rows_gold)
  have files: "val_file ds = val_rows ?acc" "test_file ds = test_rows ?acc" "train_file ds = train_rows ?acc"
    by (simp_all add: ds finalize_files)
  have gold: "gold_file ds =
           (if ?hashed = [] then take (max 1 (min 10 (length ?cand))) ?cand else ?hashed)"
    unfolding files
    by (simp add: ds finalize_files(4) gold_fallback_def Let_def split_rows_gold
          del: filter_append take_append)
  have fall: "?hashed = [] \<longrightarrow> length (gold_file ds) \<le> 10 \<and> (?cand \<noteq> [] \<longrightarrow> gold_file ds \<noteq> [])"
  proof
    assume that: "?hashed = []"
    have gf: "gold_file ds = take (max 1 (min 10 (length ?cand))) ?cand"
      using gold that by (simp del: filter_append take_append)
    show "length (gold_file ds) \<le> 10 \<and> (?cand \<noteq> [] \<longrightarrow> gold_file ds \<noteq> [])"
      unfolding gf using capped_candidates[of ?cand] by blast
  qed
  show ?thesis unfolding Let_def using ex gold fall by blast
qed

subsection \<open>The builder on the example documents\<close>

lemma ex_a: "examples_from_document id_a payload_a = examples_a"
  by code_simp

lemma ex_b: "examples_from_document id_b payload_b = examples_b"
  by code_simp

lemma scores_a:
  "score_example (facts_example id_a ''Always escalate.'') = 83"
  "score_example (howto_example id_a ''Always escalate.'') = 84"
  "score_example (edge_example id_a ''Always escalate.'') = 86"
  "score_example (refusal_example id_a) = 78"
  by code_simp+

lemma scores_b:
  "score_example (facts_example id_b ''Never share passwords.'') = 79"
  "score_example (howto_example id_b ''Never share passwords.'') = 84"
  "score_example (edge_example id_b ''Never share passwords.'') = 82"
  "score_example (refusal_example id_b) = 78"
  by code_simp+

lemma ids_differ: "id_b \<noteq> id_a" "id_a \<noteq> id_b"
  by (simp_all add: id_a_def id_b_def)

lemma example_eligible_all:
  "eligible_documents example_documents ''t1'' ''p1'' None = example_documents"
  by (simp add: eligible_documents_def example_documents_def example_document_def)

lemma example_eligible_single:
  "eligible_documents example_documents ''t1'' ''p1'' (Some [id_a])
     = [example_document id_a ''normalized/a.json'']"
  by (simp add: eligible_documents_def example_documents_def example_document_def ids_differ)

lemma example_collect_all:
  "collect_examples example_store example_documents = Inr (examples_a @ examples_b)"
  by (simp add: example_documents_def example_document_def example_store_def ex_a ex_b)

lemma example_collect_single:
  "collect_examples example_store [example_document id_a ''normalized/a.json''] = Inr examples_a"
  by (simp add: example_document_def example_store_def ex_a)

lemma examples_nonempty: "examples_a \<noteq> []" "examples_a @ examples_b \<noteq> []"
  by (simp_all add: examples_a_def)

lemma example_build:
  "build_dataset example_sha example_store example_documents [] ''ds-1'' ''t1'' ''p1'' ''v1'' None
     = ([example_built], Inr example_built)"
  unfolding build_dataset_def example_eligible_all Let_def example_collect_all
  by (simp add: examples_nonempty example_built_def example_documents_def)

lemma example_build_single:
  "build_dataset example_sha example_store example_documents [] ''ds-2'' ''t1'' ''p1'' ''v1'' (Some [id_a])
     = ([example_built_single], Inr example_built_single)"
  unfolding build_dataset_def example_eligible_single Let_def example_collect_single
  by (simp add: examples_nonempty example_built_single_def)

lemma scored_a:
  "scored_examples examples_a =
     [(facts_example id_a ''Always escalate.'', 83), (howto_example id_a ''Always escalate.'', 84),
      (edge_example id_a ''Always escalate.'', 86), (refusal_example id_a, 78)]"
  by (simp add: scored_examples_def examples_a_def scores_a)

lemma scored_ab:
  "scored_examples (examples_a @ examples_b) =
     [(facts_example id_a ''Always escalate.'', 83), (howto_example id_a ''Always escalate.'', 84),
      (edge_example id_a ''Always escalate.'', 86), (refusal_example id_a, 78),
      (facts_example id_b ''Never share passwords.'', 79),
      (howto_example id_b ''Never share passwords.'', 84),
      (edge_example id_b ''Never share passwords.'', 82), (refusal_example id_b, 78)]"
  by (simp add: scored_examples_def examples_a_def examples_b_def scores_a scores_b)

lemma example_buckets:
  "split_bucket example_sha id_a = Train" "split_bucket example_sha id_b = Val"
  by (simp_all add: split_bucket_def example_sha_def ids_differ Let_def)

lemma bucket_of_examples [simp]:
  "bucket_of example_sha (facts_example doc s, n) = split_bucket example_sha doc"
  "bucket_of example_sha (howto_example doc s, n) = split_bucket example_sha doc"
  "bucket_of example_sha (edge_example doc s, n) = split_bucket example_sha doc"
  "bucket_of example_sha (refusal_example doc, n) = split_bucket example_sha doc"
  by (simp_all add: bucket_of_def facts_example_def howto_example_def edge_example_def
      refusal_example_def general_source_def)

lemma example_built_files:
  "val_file example_built =
     map item_of [(facts_example id_b ''Never share passwords.'', 79),
      (howto_example id_b ''Never share passwords.'', 84),
      (edge_example id_b ''Never share passwords.'', 82), (refusal_example id_b, 78)]"
  "test_file example_built = [item_of (facts_example id_a ''Always escalate.'', 83)]"
  "train_file example_built =
     map item_of [(howto_example id_a ''Always escalate.'', 84),
      (edge_example id_a ''Always escalate.'', 86), (refusal_example id_a, 78)]"
  "gold_file example_built =
     map item_of [(howto_example id_b ''Never share passwords.'', 84),
      (edge_example id_b ''Never share passwords.'', 82)]"
  "hashed_gold example_sha (scored_examples (examples_a @ examples_b)) =
     map item_of [(howto_example id_b ''Never share passwords.'', 84),
      (edge_example id_b ''Never share passwords.'', 82)]"
  by (simp_all add: example_built_def finalize_files scored_ab split_rows_train split_rows_val
      split_rows_test split_rows_gold hashed_gold_def example_buckets keep_val_nonempty_def
      keep_test_nonempty_def gold_fallback_def)

lemma moved_item: "item_of (facts_example id_a ''Always escalate.'', 83) = example_moved_item"
  by (simp add: item_of_def to_item_def facts_example_def general_source_def example_moved_item_def)

lemma moved_item_not_gold: "example_moved_item \<notin> set (gold_file example_built)"
  by (simp add: example_built_files item_of_def to_item_def howto_example_def edge_example_def
      example_moved_item_def)

text \<open>
  Claim C8 as stated fails. Two documents, one hashing to the training bucket and one to
  the validation bucket: the test rows are empty after the split, so the first training
  row, which scores 83, moves to the test file. The gold rows were chosen during the
  split; they are not empty, and the moved row is not among them, although it is a row of
  the final test file scoring at least 80.
\<close>

theorem gold_misses_rebalanced_row:
  "build_dataset example_sha example_store example_documents [] ''ds-1'' ''t1'' ''p1'' ''v1'' None
     = ([example_built], Inr example_built) \<and>
   example_moved_item \<in> set (val_file example_built @ test_file example_built) \<and>
   80 \<le> example_score example_moved_item \<and>
   example_moved_item \<notin> set (gold_file example_built) \<and>
   gold_file example_built \<noteq> []"
proof -
  have "example_moved_item \<in> set (val_file example_built @ test_file example_built)"
    by (simp add: example_built_files(2) moved_item)
  moreover have "80 \<le> example_score example_moved_item"
    by (simp add: example_moved_item_def)
  moreover have "gold_file example_built \<noteq> []"
    by (simp add: example_built_files(4))
  ultimately show ?thesis
    using example_build moved_item_not_gold by blast
qed

theorem gold_rows_chosen_before_rebalancing_witness:
  "build_dataset example_sha example_store example_documents [] ''ds-1'' ''t1'' ''p1'' ''v1'' None
     = ([example_built], Inr example_built) \<and>
   collect_examples example_store (eligible_documents example_documents ''t1'' ''p1'' None)
     = Inr (examples_a @ examples_b) \<and>
   hashed_gold example_sha (scored_examples (examples_a @ examples_b)) \<noteq> [] \<and>
   gold_file example_built = hashed_gold example_sha (scored_examples (examples_a @ examples_b)) \<and>
   map example_score (gold_file example_built) = [84, 82]"
proof -
  from gold_rows_chosen_before_rebalancing[OF example_build] obtain examples where
    c: "collect_examples example_store (eligible_documents example_documents ''t1'' ''p1'' None)
          = Inr examples"
    and g: "gold_file example_built =
       (if hashed_gold example_sha (scored_examples examples) = []
        then take (max 1 (min 10 (length (filter (\<lambda>row. 75 \<le> example_score row)
               (val_file example_built @ test_file example_built @ train_file example_built)))))
               (filter (\<lambda>row. 75 \<le> example_score row)
               (val_file example_built @ test_file example_built @ train_file example_built))
        else hashed_gold example_sha (scored_examples examples))"
    unfolding Let_def by blast
  from c have ex: "examples = examples_a @ examples_b"
    unfolding example_eligible_all example_collect_all by simp
  have ne: "hashed_gold example_sha (scored_examples (examples_a @ examples_b)) \<noteq> []"
    by (simp add: example_built_files(5))
  have sc: "map example_score (gold_file example_built) = [84, 82]"
    by (simp add: example_built_files(4) item_of_def to_item_def)
  from g ex ne have "gold_file example_built
      = hashed_gold example_sha (scored_examples (examples_a @ examples_b))" by simp
  with ne sc example_build c ex show ?thesis by simp
qed

theorem slices_kept_nonempty_witness:
  "build_dataset example_sha example_store example_documents [] ''ds-2'' ''t1'' ''p1'' ''v1'' (Some [id_a])
     = ([example_built_single], Inr example_built_single) \<and>
   3 \<le> length examples_a \<and>
   val_file example_built_single = [example_moved_item] \<and>
   test_file example_built_single = [item_of (howto_example id_a ''Always escalate.'', 84)] \<and>
   train_file example_built_single =
     [item_of (edge_example id_a ''Always escalate.'', 86), item_of (refusal_example id_a, 78)]"
proof -
  from slices_kept_nonempty[OF example_build_single] obtain examples where
    c: "collect_examples example_store (eligible_documents example_documents ''t1'' ''p1'' (Some [id_a]))
          = Inr examples"
    and r: "(\<forall>x \<in> set (scored_examples examples). bucket_of example_sha x = Train) \<and> 3 \<le> length examples \<longrightarrow>
            train_file example_built_single \<noteq> [] \<and> val_file example_built_single \<noteq> [] \<and>
            test_file example_built_single \<noteq> [] \<and>
            val_file example_built_single = [item_of (scored_examples examples ! 0)] \<and>
            test_file example_built_single = [item_of (scored_examples examples ! 1)] \<and>
            train_file example_built_single = map item_of (drop 2 (scored_examples examples))"
    unfolding Let_def by blast
  from c have ex: "examples = examples_a"
    unfolding example_eligible_single example_collect_single by simp
  have all: "\<forall>x \<in> set (scored_examples examples_a). bucket_of example_sha x = Train"
    by (simp add: scored_a example_buckets)
  have len: "3 \<le> length examples_a" by (simp add: examples_a_def)
  from r[unfolded ex] all len have
    "val_file example_built_single = [item_of (scored_examples examples_a ! 0)]"
    "test_file example_built_single = [item_of (scored_examples examples_a ! 1)]"
    "train_file example_built_single = map item_of (drop 2 (scored_examples examples_a))"
    by blast+
  then show ?thesis
    using example_build_single len by (simp add: scored_a moved_item)
qed

theorem built_dataset_never_needs_review_witness:
  "build_dataset example_sha example_store example_documents [] ''ds-1'' ''t1'' ''p1'' ''v1'' None
     = ([example_built], Inr example_built) \<and>
   review_file example_built = [] \<and> ds_status example_built = DS_READY \<and>
   76 \<le> score_example (refusal_example id_a)"
  using built_dataset_never_needs_review[where row = "refusal_example id_a" and sha = example_sha
      and store = example_store and documents = example_documents and datasets = "[]"
      and new_id = "''ds-1''" and tenant_id = "''t1''" and project_id = "''p1''" and name = "''v1''"
      and document_ids = None and datasets' = "[example_built]" and ds = example_built]
    example_build
  by simp

theorem refusal_example_always_synthesized_witness:
  "collect_examples example_store example_documents = Inr (examples_a @ examples_b) \<and>
   length example_documents \<le> length (examples_a @ examples_b) \<and>
   examples_from_document id_a payload_a \<noteq> [] \<and>
   last (examples_from_document id_a payload_a) = refusal_example id_a \<and>
   snd (build_dataset example_sha example_store example_documents [] ''ds-1'' ''t1'' ''p1'' ''v1'' None)
     \<noteq> Inl No_examples_generated"
  using refusal_example_always_synthesized[where doc = id_a and pl = payload_a
      and store = example_store and docs = example_documents and sha = example_sha
      and documents = example_documents and datasets = "[]"
      and new_id = "''ds-1''" and tenant_id = "''t1''" and project_id = "''p1''" and name = "''v1''"
      and document_ids = None]
    example_collect_all
  by blast

end
